theory Spec2Isabelle
  imports Main
begin

section \<open>Python values used by the queue client\<close>

text \<open>
  The embedding follows \<^verbatim>\<open>twscrape/queue_client.py\<close>. Exceptions are values: every
  \<^verbatim>\<open>raise\<close> of the source, and every exception a builtin raises on the inputs the
  source hands it, is a value of \<open>exn\<close>. \<^verbatim>\<open>exit(1)\<close> raises \<open>SystemExit\<close>,
  which is not an \<^verbatim>\<open>Exception\<close>: it passes every handler of the request loop and
  ends the process.
  Logging calls and the diagnostic dump (\<^verbatim>\<open>debug\<close>) have no effect on the control
  flow and are left out.
\<close>

text \<open>
  What the transport can raise from \<^verbatim>\<open>clt.request\<close>: the four exceptions of the HTTP
  library that \<^verbatim>\<open>req\<close> names, and \<open>OtherError\<close> for any other \<^verbatim>\<open>Exception\<close>.
\<close>

datatype transport_error =
    ReadTimeout
  | ProxyError
  | ConnectError
  | ConnectTimeout
  | OtherError

datatype exn =
    HandledError
  | AbortReqError
  | SystemExit int
  | TransportError transport_error
  | TypeError
  | AttributeError
  | KeyError
  | ValueError
  | ZeroDivisionError

subsection \<open>Strings\<close>

fun startswith :: "string \<Rightarrow> string \<Rightarrow> bool" where
  "startswith s [] = True"
| "startswith [] (p # ps) = False"
| "startswith (c # cs) (p # ps) = (c = p \<and> startswith cs ps)"

text \<open>\<^verbatim>\<open>sub in s\<close> on two strings: \<open>sub\<close> occurs in \<open>s\<close> as a contiguous block.\<close>

fun contains :: "string \<Rightarrow> string \<Rightarrow> bool" where
  "contains [] sub = (sub = [])"
| "contains (c # cs) sub = (startswith (c # cs) sub \<or> contains cs sub)"

text \<open>\<^verbatim>\<open>sep.join(xs)\<close>.\<close>

fun join :: "string \<Rightarrow> string list \<Rightarrow> string" where
  "join sep [] = []"
| "join sep [x] = x"
| "join sep (x # y # ys) = x @ sep @ join sep (y # ys)"

subsection \<open>Integers and their text\<close>

definition digit_char :: "nat \<Rightarrow> char" where
  "digit_char d = ''0123456789abcdef'' ! d"

function show_nat :: "nat \<Rightarrow> string" where
  "show_nat n = (if n < 10 then [digit_char n] else show_nat (n div 10) @ [digit_char (n mod 10)])"
  by pat_completeness auto
termination
  by (relation "measure id") auto

declare show_nat.simps [simp del]

text \<open>\<^verbatim>\<open>str(n)\<close> for an int.\<close>

definition show_int :: "int \<Rightarrow> string" where
  "show_int i = (if i < 0 then CHR ''-'' # show_nat (nat (- i)) else show_nat (nat i))"

definition is_space :: "char \<Rightarrow> bool" where
  "is_space c = (c \<in> set [CHR '' '', CHR 0x09, CHR 0x0A, CHR 0x0B, CHR 0x0C, CHR 0x0D])"

definition strip :: "string \<Rightarrow> string" where
  "strip s = rev (dropWhile is_space (rev (dropWhile is_space s)))"

definition digit_val :: "char \<Rightarrow> nat option" where
  "digit_val c =
     (let n = (of_char c :: nat) in if 48 \<le> n \<and> n \<le> 57 then Some (n - 48) else None)"

text \<open>
  The digits of a decimal literal as \<^verbatim>\<open>int()\<close> reads them: at least one digit, single
  underscores allowed between digits only. \<open>last_digit\<close> says the previous character was a digit.
\<close>

fun py_digits :: "string \<Rightarrow> nat \<Rightarrow> bool \<Rightarrow> nat option" where
  "py_digits [] acc last_digit = (if last_digit then Some acc else None)"
| "py_digits (c # cs) acc last_digit =
     (case digit_val c of
        Some d \<Rightarrow> py_digits cs (acc * 10 + d) True
      | None \<Rightarrow>
          if c = CHR ''_'' \<and> last_digit \<and> cs \<noteq> [] then py_digits cs acc False else None)"

text \<open>\<^verbatim>\<open>int(s)\<close> on a string of ASCII characters: surrounding whitespace, an optional sign,
  the digits; anything else is a \<open>ValueError\<close>.\<close>

definition int_of_str :: "string \<Rightarrow> exn + int" where
  "int_of_str s =
     (case strip s of
        [] \<Rightarrow> Inl ValueError
      | c # cs \<Rightarrow>
          if c = CHR ''-'' then
            (case py_digits cs 0 False of None \<Rightarrow> Inl ValueError | Some n \<Rightarrow> Inr (- int n))
          else if c = CHR ''+'' then
            (case py_digits cs 0 False of None \<Rightarrow> Inl ValueError | Some n \<Rightarrow> Inr (int n))
          else
            (case py_digits (c # cs) 0 False of None \<Rightarrow> Inl ValueError | Some n \<Rightarrow> Inr (int n)))"

subsection \<open>Parsed JSON\<close>

text \<open>
  What \<^verbatim>\<open>rep.json()\<close> returns. A dict is an association list in key order; a parsed dict has
  distinct keys, and a lookup takes the first binding. A float is carried as the text
  \<^verbatim>\<open>str()\<close> gives it, which is all the client does with one.
\<close>

datatype json =
    JNull
  | JBool bool
  | JInt int
  | JFloat string
  | JStr string
  | JArr "json list"
  | JObj "(string \<times> json) list"

definition hex2 :: "nat \<Rightarrow> string" where
  "hex2 n = [digit_char (n div 16), digit_char (n mod 16)]"

text \<open>\<^verbatim>\<open>repr(s)\<close> of a string: the quote Python picks and its escapes (bytes above 127, the
  UTF-8 of printable characters, stand as they are).\<close>

definition repr_char :: "char \<Rightarrow> char \<Rightarrow> string" where
  "repr_char q c =
     (if c = q \<or> c = CHR 0x5C then [CHR 0x5C, c]
      else if c = CHR 0x09 then [CHR 0x5C, CHR ''t'']
      else if c = CHR 0x0A then [CHR 0x5C, CHR ''n'']
      else if c = CHR 0x0D then [CHR 0x5C, CHR ''r'']
      else if (of_char c :: nat) < 32 \<or> c = CHR 0x7F then [CHR 0x5C, CHR ''x''] @ hex2 (of_char c)
      else [c])"

definition repr_str :: "string \<Rightarrow> string" where
  "repr_str s =
     (let q = (if CHR 0x27 \<in> set s \<and> CHR 0x22 \<notin> set s then CHR 0x22 else CHR 0x27)
      in q # concat (map (repr_char q) s) @ [q])"

fun py_repr :: "json \<Rightarrow> string" where
  "py_repr JNull = ''None''"
| "py_repr (JBool b) = (if b then ''True'' else ''False'')"
| "py_repr (JInt i) = show_int i"
| "py_repr (JFloat r) = r"
| "py_repr (JStr s) = repr_str s"
| "py_repr (JArr xs) = ''['' @ join '', '' (map py_repr xs) @ '']''"
| "py_repr (JObj kvs) =
     ''{'' @ join '', '' (map (\<lambda>kv. repr_str (fst kv) @ '': '' @ py_repr (snd kv)) kvs) @ ''}''"

text \<open>\<^verbatim>\<open>str(v)\<close>, which an f-string applies to each field.\<close>

definition py_str :: "json \<Rightarrow> string" where
  "py_str v = (case v of JStr s \<Rightarrow> s | _ \<Rightarrow> py_repr v)"

text \<open>\<^verbatim>\<open>k in v\<close> for a string \<open>k\<close>: a key of a dict, an element of a list, a substring of a
  string; anything else is not iterable.\<close>

fun py_in :: "string \<Rightarrow> json \<Rightarrow> exn + bool" where
  "py_in k (JObj kvs) = Inr (k \<in> set (map fst kvs))"
| "py_in k (JArr xs) = Inr (JStr k \<in> set xs)"
| "py_in k (JStr s) = Inr (contains s k)"
| "py_in k v = Inl TypeError"

text \<open>\<^verbatim>\<open>v[k]\<close> for a string \<open>k\<close>.\<close>

fun py_getitem :: "json \<Rightarrow> string \<Rightarrow> exn + json" where
  "py_getitem (JObj kvs) k = (case map_of kvs k of None \<Rightarrow> Inl KeyError | Some v \<Rightarrow> Inr v)"
| "py_getitem v k = Inl TypeError"

text \<open>\<^verbatim>\<open>for x in v\<close>: the elements of a list, the keys of a dict, the characters of a string.\<close>

fun py_iter :: "json \<Rightarrow> exn + json list" where
  "py_iter (JArr xs) = Inr xs"
| "py_iter (JObj kvs) = Inr (map (\<lambda>kv. JStr (fst kv)) kvs)"
| "py_iter (JStr s) = Inr (map (\<lambda>ch. JStr [ch]) s)"
| "py_iter v = Inl TypeError"

section \<open>Responses, sessions and the outside world\<close>

text \<open>
  A response as the client reads it: \<open>headers\<close> is \<^verbatim>\<open>rep.headers.get\<close>, \<open>json_body\<close> is
  \<^verbatim>\<open>rep.json()\<close> (\<open>None\<close> when it raises \<^verbatim>\<open>JSONDecodeError\<close>), \<open>body_text\<close> is \<^verbatim>\<open>rep.text\<close>.
\<close>

record response =
  status_code :: int
  headers :: "string \<Rightarrow> string option"
  json_body :: "json option"
  body_text :: string

record account =
  username :: string

text \<open>An entry of \<^verbatim>\<open>pool.accounts_info()\<close>: its \<^verbatim>\<open>'username'\<close> and \<^verbatim>\<open>'active'\<close> keys.\<close>

record acc_info =
  info_username :: string
  info_active :: bool

text \<open>
  A value the counter store returns from \<^verbatim>\<open>get\<close>: an integer, or the text (str or bytes) a
  Redis client returns. The client only tests it for truth and applies \<^verbatim>\<open>int()\<close>.
\<close>

datatype rval = RInt int | RStr string

fun py_truthy :: "rval \<Rightarrow> bool" where
  "py_truthy (RInt i) = (i \<noteq> 0)"
| "py_truthy (RStr s) = (s \<noteq> [])"

fun py_int :: "rval \<Rightarrow> exn + int" where
  "py_int (RInt i) = Inr i"
| "py_int (RStr s) = int_of_str s"

text \<open>
  \<^verbatim>\<open>class Ctx\<close>: the account, its transport client and the count of successful requests. The
  transport client is an object of the HTTP library; the model names it by a number, so
  that two clients made for one account stay distinct.
\<close>

record Ctx =
  acc :: account
  clt :: nat
  req_count :: int

text \<open>
  The attributes of a \<^verbatim>\<open>QueueClient\<close>. \<open>redis_conn\<close> says whether a counter store is
  configured (the connection object is truthy when given); \<open>self_req_count\<close> is the attribute
  \<^verbatim>\<open>self.req_count\<close>, which only \<^verbatim>\<open>_close_ctx\<close> assigns and nothing reads.
\<close>

record client =
  queue :: string
  proxy :: "string option"
  redis_conn :: bool
  change :: int
  ave :: bool
  ctx :: "Ctx option"
  self_req_count :: "int option"

text \<open>
  Everything the client calls and does not implement, as operations on the state \<open>'x\<close> of
  the outside world: the account pool (\<^verbatim>\<open>accounts_pool.py\<close>), the counter store, the clock
  \<^verbatim>\<open>utc.ts()\<close>, the order in which Python iterates a set of strings built from a list, and
  \<^verbatim>\<open>rep.raise_for_status()\<close> (\<open>True\<close> when it raises for that status code). Each operation
  is taken to return; a theorem that holds for every \<open>externals\<close> holds for every pool.
  One client runs alone: what other clients do to the pool and the store while this one
  awaits a call is not modelled.
\<close>

record 'x externals =
  pool_accounts_info :: "'x \<Rightarrow> acc_info list"
  pool_get_account :: "string \<Rightarrow> 'x \<Rightarrow> account option"
  pool_get_for_queue_or_wait :: "string \<Rightarrow> 'x \<Rightarrow> account option \<times> 'x"
  pool_unlock :: "string \<Rightarrow> string \<Rightarrow> int \<Rightarrow> 'x \<Rightarrow> 'x"
  pool_lock_until :: "string \<Rightarrow> string \<Rightarrow> int \<Rightarrow> int \<Rightarrow> 'x \<Rightarrow> 'x"
  pool_mark_inactive :: "string \<Rightarrow> string option \<Rightarrow> 'x \<Rightarrow> 'x"
  redis_get :: "string \<Rightarrow> 'x \<Rightarrow> rval option"
  redis_set :: "string \<Rightarrow> int \<Rightarrow> int \<Rightarrow> 'x \<Rightarrow> 'x"
  redis_incr :: "string \<Rightarrow> 'x \<Rightarrow> 'x"
  utc_ts :: "'x \<Rightarrow> int"
  set_iter :: "string list \<Rightarrow> string list"
  raise_for_status :: "int \<Rightarrow> bool"

text \<open>The calls that change something outside the client, in the order they are made.\<close>

datatype event =
    MakeClient nat string
  | Aclose nat
  | Request nat
  | GetForQueue string
  | Unlock string string int
  | LockUntil string string int int
  | MarkInactive string "string option"

record 'x world =
  ext :: 'x
  trace :: "event list"
  next_clt :: nat
  open_clts :: "nat list"

definition make_client :: "account \<Rightarrow> 'x world \<Rightarrow> nat \<times> 'x world" where
  "make_client a w =
     (next_clt w,
      w\<lparr>next_clt := next_clt w + 1,
        open_clts := open_clts w @ [next_clt w],
        trace := trace w @ [MakeClient (next_clt w) (username a)]\<rparr>)"

definition aclose :: "nat \<Rightarrow> 'x world \<Rightarrow> 'x world" where
  "aclose i w = w\<lparr>open_clts := removeAll i (open_clts w), trace := trace w @ [Aclose i]\<rparr>"

definition unlock :: "'x externals \<Rightarrow> string \<Rightarrow> string \<Rightarrow> int \<Rightarrow> 'x world \<Rightarrow> 'x world" where
  "unlock E u q n w = w\<lparr>ext := pool_unlock E u q n (ext w), trace := trace w @ [Unlock u q n]\<rparr>"

definition lock_until ::
  "'x externals \<Rightarrow> string \<Rightarrow> string \<Rightarrow> int \<Rightarrow> int \<Rightarrow> 'x world \<Rightarrow> 'x world" where
  "lock_until E u q t n w =
     w\<lparr>ext := pool_lock_until E u q t n (ext w), trace := trace w @ [LockUntil u q t n]\<rparr>"

definition mark_inactive :: "'x externals \<Rightarrow> string \<Rightarrow> string option \<Rightarrow> 'x world \<Rightarrow> 'x world" where
  "mark_inactive E u m w =
     w\<lparr>ext := pool_mark_inactive E u m (ext w), trace := trace w @ [MarkInactive u m]\<rparr>"

definition get_for_queue_or_wait ::
  "'x externals \<Rightarrow> string \<Rightarrow> 'x world \<Rightarrow> account option \<times> 'x world" where
  "get_for_queue_or_wait E q w =
     (case pool_get_for_queue_or_wait E q (ext w) of
        (a, x') \<Rightarrow> (a, w\<lparr>ext := x', trace := trace w @ [GetForQueue q]\<rparr>))"

section \<open>The queue client\<close>

definition ACCOUNT_REQ_COUNT_PREFIX :: string where
  "ACCOUNT_REQ_COUNT_PREFIX = ''account_req_count_''"

definition ACCOUNT_TOTAL_COUNT :: string where
  "ACCOUNT_TOTAL_COUNT = ''accounts_total_count''"

subsection \<open>Releasing the context\<close>

definition close_ctx ::
  "'x externals \<Rightarrow> int \<Rightarrow> bool \<Rightarrow> string option \<Rightarrow> client \<Rightarrow> 'x world \<Rightarrow> client \<times> 'x world" where
  "close_ctx E reset_at inactive msg c w =
     (case ctx c of
        None \<Rightarrow> (c, w)
      | Some x \<Rightarrow>
          let c' = c\<lparr>ctx := None, self_req_count := Some 0\<rparr>;
              u = username (acc x);
              w1 = aclose (clt x) w
          in if inactive then (c', mark_inactive E u msg w1)
             else if reset_at > 0 then (c', lock_until E u (queue c) reset_at (req_count x) w1)
             else (c', unlock E u (queue c) (req_count x) w1))"

subsection \<open>Usage counters\<close>

text \<open>The expiry of a counter (24 hours) is the store's business and is not modelled beyond
  the argument \<^verbatim>\<open>ex\<close>.\<close>

definition increment_total_count ::
  "'x externals \<Rightarrow> client \<Rightarrow> 'x world \<Rightarrow> (exn + int option) \<times> 'x world" where
  "increment_total_count E c w =
     (if \<not> redis_conn c then (Inr None, w)
      else
        (case redis_get E ACCOUNT_TOTAL_COUNT (ext w) of
           None \<Rightarrow> (Inr (Some 1), w\<lparr>ext := redis_set E ACCOUNT_TOTAL_COUNT 1 (24 * 60 * 60) (ext w)\<rparr>)
         | Some v \<Rightarrow>
             (case py_int v of
                Inl e \<Rightarrow> (Inl e, w)
              | Inr n \<Rightarrow> (Inr (Some (n + 1)), w\<lparr>ext := redis_incr E ACCOUNT_TOTAL_COUNT (ext w)\<rparr>))))"

definition get_total_count :: "'x externals \<Rightarrow> client \<Rightarrow> 'x world \<Rightarrow> rval option" where
  "get_total_count E c w =
     (if \<not> redis_conn c then None else redis_get E ACCOUNT_TOTAL_COUNT (ext w))"

definition increment_account_usage ::
  "'x externals \<Rightarrow> client \<Rightarrow> string \<Rightarrow> 'x world \<Rightarrow> (exn + int option) \<times> 'x world" where
  "increment_account_usage E c a w =
     (if \<not> redis_conn c then (Inr None, w)
      else
        (let key = ACCOUNT_REQ_COUNT_PREFIX @ a in
         case redis_get E key (ext w) of
           None \<Rightarrow> (Inr (Some 1), w\<lparr>ext := redis_set E key 1 (24 * 60 * 60) (ext w)\<rparr>)
         | Some v \<Rightarrow>
             (case py_int v of
                Inl e \<Rightarrow> (Inl e, w)
              | Inr n \<Rightarrow> (Inr (Some (n + 1)), w\<lparr>ext := redis_incr E key (ext w)\<rparr>))))"

subsection \<open>Session selection\<close>

text \<open>
  The second loop of \<^verbatim>\<open>_get_least_used_account\<close>. \<open>min_usage\<close> starts at
  \<^verbatim>\<open>float('inf')\<close>, written \<open>None\<close>: every int is below it.
\<close>

fun least_used_scan ::
  "(string \<Rightarrow> rval option) \<Rightarrow> string list \<Rightarrow> int option \<Rightarrow> string option \<Rightarrow> exn + string option" where
  "least_used_scan get [] min_usage least_used_account = Inr least_used_account"
| "least_used_scan get (u # us) min_usage least_used_account =
     (case get (ACCOUNT_REQ_COUNT_PREFIX @ u) of
        None \<Rightarrow> Inr (Some u)
      | Some v \<Rightarrow>
          (case py_int v of
             Inl e \<Rightarrow> Inl e
           | Inr usage \<Rightarrow>
               if (case min_usage of None \<Rightarrow> True | Some m \<Rightarrow> usage < m)
               then least_used_scan get us (Some usage) (Some u)
               else least_used_scan get us min_usage least_used_account))"

definition active_usernames :: "acc_info list \<Rightarrow> string list" where
  "active_usernames accs = map info_username (filter info_active accs)"

definition get_least_used_account :: "'x externals \<Rightarrow> client \<Rightarrow> 'x world \<Rightarrow> exn + string option" where
  "get_least_used_account E c w =
     (if \<not> redis_conn c then Inr None
      else least_used_scan (\<lambda>k. redis_get E k (ext w))
             (active_usernames (pool_accounts_info E (ext w))) None None)"

text \<open>\<^verbatim>\<open>_change\<close>; the attribute \<^verbatim>\<open>change\<close> keeps its name, the method is \<open>change_ctx\<close>.\<close>

definition change_ctx ::
  "'x externals \<Rightarrow> client \<Rightarrow> 'x world \<Rightarrow> (exn + Ctx option) \<times> client \<times> 'x world" where
  "change_ctx E c w =
     (case get_least_used_account E c w of
        Inl e \<Rightarrow> (Inl e, c, w)
      | Inr None \<Rightarrow> (Inr None, c, w)
      | Inr (Some u) \<Rightarrow>
          (case pool_get_account E u (ext w) of
             None \<Rightarrow> (Inr None, c, w)
           | Some a \<Rightarrow>
               (case make_client a w of
                  (i, w') \<Rightarrow>
                    (let x = \<lparr>acc = a, clt = i, req_count = 0\<rparr>
                     in (Inr (Some x), c\<lparr>ctx := Some x\<rparr>, w')))))"

text \<open>
  \<^verbatim>\<open>total_count and int(total_count) % int(self.change) == 0\<close>: the test both strategies
  make. \<^verbatim>\<open>and\<close> stops at a missing or falsy count; \<^verbatim>\<open>%\<close> by zero raises.
\<close>

definition switch_due :: "rval option \<Rightarrow> int \<Rightarrow> exn + bool" where
  "switch_due total_count ch =
     (case total_count of
        None \<Rightarrow> Inr False
      | Some v \<Rightarrow>
          if \<not> py_truthy v then Inr False
          else
            (case py_int v of
               Inl e \<Rightarrow> Inl e
             | Inr n \<Rightarrow> if ch = 0 then Inl ZeroDivisionError else Inr (n mod ch = 0)))"

definition change_acc_usage ::
  "'x externals \<Rightarrow> client \<Rightarrow> 'x world \<Rightarrow> (exn + Ctx option) \<times> client \<times> 'x world" where
  "change_acc_usage E c w =
     (case switch_due (get_total_count E c w) (change c) of
        Inl e \<Rightarrow> (Inl e, c, w)
      | Inr True \<Rightarrow> change_ctx E c w
      | Inr False \<Rightarrow>
          (case ctx c of
             Some x \<Rightarrow> (Inr (Some x), c, w)
           | None \<Rightarrow> change_ctx E c w))"

definition org_change ::
  "'x externals \<Rightarrow> client \<Rightarrow> 'x world \<Rightarrow> (exn + Ctx option) \<times> client \<times> 'x world" where
  "org_change E c w =
     (case get_for_queue_or_wait E (queue c) w of
        (None, w1) \<Rightarrow> (Inr None, c, w1)
      | (Some a, w1) \<Rightarrow>
          (case make_client a w1 of
             (i, w') \<Rightarrow>
               (let x = \<lparr>acc = a, clt = i, req_count = 0\<rparr>
                in (Inr (Some x), c\<lparr>ctx := Some x\<rparr>, w'))))"

definition get_ctx ::
  "'x externals \<Rightarrow> client \<Rightarrow> 'x world \<Rightarrow> (exn + Ctx option) \<times> client \<times> 'x world" where
  "get_ctx E c w =
     (if ave c \<and> redis_conn c then change_acc_usage E c w
      else
        (case switch_due (get_total_count E c w) (change c) of
           Inl e \<Rightarrow> (Inl e, c, w)
         | Inr True \<Rightarrow> org_change E c w
         | Inr False \<Rightarrow>
             (case ctx c of
                Some x \<Rightarrow> (Inr (Some x), c, w)
              | None \<Rightarrow> org_change E c w)))"

subsection \<open>Classifying a response\<close>

text \<open>\<^verbatim>\<open>res = rep.json()\<close>, or the raw text wrapped in a dict when the body is not JSON.\<close>

definition rep_json :: "response \<Rightarrow> json" where
  "rep_json rep =
     (case json_body rep of None \<Rightarrow> JObj [(''_raw'', JStr (body_text rep))] | Some j \<Rightarrow> j)"

text \<open>\<^verbatim>\<open>int(rep.headers.get(name, -1))\<close>.\<close>

definition header_int :: "response \<Rightarrow> string \<Rightarrow> exn + int" where
  "header_int rep name = (case headers rep name of None \<Rightarrow> Inr (- 1) | Some v \<Rightarrow> int_of_str v)"

text \<open>One entry of the message: \<^verbatim>\<open>f'({x.get("code", -1)}) {x["message"]}'\<close>. Only a dict
  has \<^verbatim>\<open>get\<close>; a dict without \<^verbatim>\<open>"message"\<close> raises \<open>KeyError\<close>.\<close>

fun format_error :: "json \<Rightarrow> exn + string" where
  "format_error (JObj kvs) =
     (case map_of kvs ''message'' of
        None \<Rightarrow> Inl KeyError
      | Some m \<Rightarrow>
          Inr (''('' @ py_str (case map_of kvs ''code'' of None \<Rightarrow> JInt (- 1) | Some k \<Rightarrow> k)
                 @ '') '' @ py_str m))"
| "format_error v = Inl AttributeError"

text \<open>The list comprehension: the entries in order, stopping at the first that raises.\<close>

fun format_errors :: "json list \<Rightarrow> exn + string list" where
  "format_errors [] = Inr []"
| "format_errors (x # xs) =
     (case format_error x of
        Inl e \<Rightarrow> Inl e
      | Inr s \<Rightarrow> (case format_errors xs of Inl e \<Rightarrow> Inl e | Inr ss \<Rightarrow> Inr (s # ss)))"

text \<open>
  \<^verbatim>\<open>err_msg\<close>: \<^verbatim>\<open>"OK"\<close>, or the entries put into a \<^verbatim>\<open>set\<close>, listed in the set's
  iteration order and joined.
\<close>

definition build_err_msg :: "'x externals \<Rightarrow> json \<Rightarrow> exn + string" where
  "build_err_msg E res =
     (case py_in ''errors'' res of
        Inl e \<Rightarrow> Inl e
      | Inr False \<Rightarrow> Inr ''OK''
      | Inr True \<Rightarrow>
          (case py_getitem res ''errors'' of
             Inl e \<Rightarrow> Inl e
           | Inr es \<Rightarrow>
               (case py_iter es of
                  Inl e \<Rightarrow> Inl e
                | Inr xs \<Rightarrow>
                    (case format_errors xs of
                       Inl e \<Rightarrow> Inl e
                     | Inr ss \<Rightarrow> Inr (join ''; '' (set_iter E ss))))))"

text \<open>The branch on \<^verbatim>\<open>(131) Dependency: Internal error\<close>: the message the later checks
  see, or \<open>AbortReqError\<close>. \<^verbatim>\<open>and\<close> evaluates its operands from the left.\<close>

definition dependency_check :: "response \<Rightarrow> json \<Rightarrow> string \<Rightarrow> exn + string" where
  "dependency_check rep res err_msg =
     (if startswith err_msg ''(131) Dependency: Internal error'' then
        (if status_code rep \<noteq> 200 then Inl AbortReqError
         else
           (case py_in ''data'' res of
              Inl e \<Rightarrow> Inl e
            | Inr False \<Rightarrow> Inl AbortReqError
            | Inr True \<Rightarrow>
                (case py_getitem res ''data'' of
                   Inl e \<Rightarrow> Inl e
                 | Inr d \<Rightarrow>
                     (case py_in ''user'' d of
                        Inl e \<Rightarrow> Inl e
                      | Inr True \<Rightarrow> Inr ''OK''
                      | Inr False \<Rightarrow> Inl AbortReqError))))
      else Inr err_msg)"

text \<open>\<^verbatim>\<open>await self._close_ctx(...)\<close> followed by \<^verbatim>\<open>raise HandledError()\<close>.\<close>

definition close_and_raise ::
  "'x externals \<Rightarrow> int \<Rightarrow> bool \<Rightarrow> string option \<Rightarrow> client \<Rightarrow> 'x world
     \<Rightarrow> (exn + unit) \<times> client \<times> 'x world" where
  "close_and_raise E reset_at inactive msg c w =
     (case close_ctx E reset_at inactive msg c w of (c', w') \<Rightarrow> (Inl HandledError, c', w'))"

definition check_rep ::
  "'x externals \<Rightarrow> response \<Rightarrow> client \<Rightarrow> 'x world \<Rightarrow> (exn + unit) \<times> client \<times> 'x world" where
  "check_rep E rep c w =
     (let res = rep_json rep in
      case header_int rep ''x-rate-limit-remaining'' of
        Inl e \<Rightarrow> (Inl e, c, w)
      | Inr limit_remaining \<Rightarrow>
      (case header_int rep ''x-rate-limit-reset'' of
        Inl e \<Rightarrow> (Inl e, c, w)
      | Inr limit_reset \<Rightarrow>
      (case build_err_msg E res of
        Inl e \<Rightarrow> (Inl e, c, w)
      | Inr err_msg \<Rightarrow>
          if startswith err_msg ''(336) The following features cannot be null''
          then (Inl (SystemExit 1), c, w)
          else if limit_remaining = 0 \<and> limit_reset > 0
          then close_and_raise E limit_reset False None c w
          else if startswith err_msg ''(88) Rate limit exceeded'' \<and> limit_remaining > 0
          then close_and_raise E (- 1) True (Some err_msg) c w
          else if startswith err_msg ''(326) Authorization: Denied by access control''
          then close_and_raise E (- 1) True (Some err_msg) c w
          else if startswith err_msg ''(32) Could not authenticate you''
          then close_and_raise E (- 1) True (Some err_msg) c w
          else if err_msg = ''OK'' \<and> status_code rep = 403
          then close_and_raise E (- 1) True None c w
          else
            (case dependency_check rep res err_msg of
               Inl e \<Rightarrow> (Inl e, c, w)
             | Inr err_msg' \<Rightarrow>
                 if status_code rep = 200
                    \<and> contains err_msg' ''_Missing: No status found with that ID''
                 then (Inr (), c, w)
                 else if status_code rep = 200 \<and> contains err_msg' ''Authorization''
                 then (Inr (), c, w)
                 else if err_msg' \<noteq> ''OK''
                 then (Inr (), c, w)
                 else if raise_for_status E (status_code rep)
                 then close_and_raise E (utc_ts E (ext w) + 60 * 15) False None c w
                 else (Inr (), c, w)))))"

subsection \<open>The request loop\<close>

text \<open>
  What one call of \<^verbatim>\<open>ctx.clt.request\<close> does is the transport's: a response, or an
  exception. A script lists the outcomes of the calls in the order they are made.
\<close>

datatype net = Reply response | Fails transport_error

text \<open>How one turn of the loop ends: \<^verbatim>\<open>return\<close>, an exception raised to the caller, the
  process exiting through \<^verbatim>\<open>exit\<close>, or the next turn.\<close>

datatype step = Return "response option" | Raise exn | Exit int | Continue

text \<open>The retry counters \<^verbatim>\<open>unknown_retry, connection_retry\<close>, local to one call of
  \<^verbatim>\<open>req\<close>.\<close>

type_synonym retry = "nat \<times> nat"

text \<open>The \<^verbatim>\<open>except\<close> clauses of \<^verbatim>\<open>req\<close>, in their order.\<close>

fun on_exception ::
  "'x externals \<Rightarrow> exn \<Rightarrow> retry \<Rightarrow> client \<Rightarrow> 'x world \<Rightarrow> step \<times> retry \<times> client \<times> 'x world" where
  "on_exception E AbortReqError (unknown_retry, connection_retry) c w =
     (Return None, (unknown_retry, connection_retry), c, w)"
| "on_exception E HandledError (unknown_retry, connection_retry) c w =
     (Continue, (unknown_retry, connection_retry), c, w)"
| "on_exception E (TransportError ReadTimeout) (unknown_retry, connection_retry) c w =
     (Continue, (unknown_retry, connection_retry), c, w)"
| "on_exception E (TransportError ProxyError) (unknown_retry, connection_retry) c w =
     (Continue, (unknown_retry, connection_retry), c, w)"
| "on_exception E (TransportError ConnectError) (unknown_retry, connection_retry) c w =
     (if connection_retry + 1 \<ge> 3
      then (Raise (TransportError ConnectError), (unknown_retry, connection_retry + 1), c, w)
      else (Continue, (unknown_retry, connection_retry + 1), c, w))"
| "on_exception E (TransportError ConnectTimeout) (unknown_retry, connection_retry) c w =
     (if connection_retry + 1 \<ge> 3
      then (Raise (TransportError ConnectTimeout), (unknown_retry, connection_retry + 1), c, w)
      else (Continue, (unknown_retry, connection_retry + 1), c, w))"
| "on_exception E (SystemExit n) (unknown_retry, connection_retry) c w =
     (Exit n, (unknown_retry, connection_retry), c, w)"
| "on_exception E e (unknown_retry, connection_retry) c w =
     (if unknown_retry + 1 \<ge> 3
      then
        (case close_ctx E (utc_ts E (ext w) + 60 * 15) False None c w of
           (c', w') \<Rightarrow> (Continue, (unknown_retry + 1, connection_retry), c', w'))
      else (Continue, (unknown_retry + 1, connection_retry), c, w))"

text \<open>
  The body of the \<^verbatim>\<open>try\<close> with its handlers, for the context \<open>x\<close> that selection
  returned. \<open>x\<close> is the object \<^verbatim>\<open>self.ctx\<close> holds, so \<^verbatim>\<open>ctx.req_count += 1\<close> is seen
  through \<^verbatim>\<open>self.ctx\<close> too.
\<close>

text \<open>The world once the request has gone out over the transport of \<open>x\<close>.\<close>

definition sent :: "Ctx \<Rightarrow> 'x world \<Rightarrow> 'x world" where
  "sent x w = w\<lparr>trace := trace w @ [Request (clt x)]\<rparr>"

definition attempt ::
  "'x externals \<Rightarrow> net \<Rightarrow> Ctx \<Rightarrow> retry \<Rightarrow> client \<Rightarrow> 'x world
     \<Rightarrow> step \<times> retry \<times> client \<times> 'x world" where
  "attempt E n x r c w =
     (let w0 = sent x w in
      case n of
        Fails f \<Rightarrow> on_exception E (TransportError f) r c w0
      | Reply rep \<Rightarrow>
          (case check_rep E rep c w0 of
             (Inl e, c1, w1) \<Rightarrow> on_exception E e r c1 w1
           | (Inr u, c1, w1) \<Rightarrow>
               (let c2 = c1\<lparr>ctx := Some (x\<lparr>req_count := req_count x + 1\<rparr>)\<rparr> in
                case increment_account_usage E c2 (username (acc x)) w1 of
                  (Inl e, w2) \<Rightarrow> on_exception E e r c2 w2
                | (Inr a, w2) \<Rightarrow>
                    (case increment_total_count E c2 w2 of
                       (Inl e, w3) \<Rightarrow> on_exception E e r c2 w3
                     | (Inr t, w3) \<Rightarrow> (Return (Some rep), (0, 0), c2, w3)))))"

text \<open>
  The \<^verbatim>\<open>while True\<close> loop. Each turn that reaches the transport consumes one outcome of
  the script; the result is \<open>None\<close> when the script ends while the loop still runs. The
  result carries the counters, the client and the world as the call leaves them.
\<close>

fun req_loop ::
  "'x externals \<Rightarrow> net list \<Rightarrow> retry \<Rightarrow> client \<Rightarrow> 'x world
     \<Rightarrow> (step \<times> retry \<times> client \<times> 'x world) option" where
  "req_loop E [] r c w =
     (case get_ctx E c w of
        (Inl e, c1, w1) \<Rightarrow> Some (Raise e, r, c1, w1)
      | (Inr None, c1, w1) \<Rightarrow> Some (Return None, r, c1, w1)
      | (Inr (Some x), c1, w1) \<Rightarrow> None)"
| "req_loop E (n # ns) r c w =
     (case get_ctx E c w of
        (Inl e, c1, w1) \<Rightarrow> Some (Raise e, r, c1, w1)
      | (Inr None, c1, w1) \<Rightarrow> Some (Return None, r, c1, w1)
      | (Inr (Some x), c1, w1) \<Rightarrow>
          (case attempt E n x r c1 w1 of
             (Continue, r2, c2, w2) \<Rightarrow> req_loop E ns r2 c2 w2
           | (s, r2, c2, w2) \<Rightarrow> Some (s, r2, c2, w2)))"

definition req ::
  "'x externals \<Rightarrow> net list \<Rightarrow> client \<Rightarrow> 'x world \<Rightarrow> (step \<times> retry \<times> client \<times> 'x world) option" where
  "req E script c w = req_loop E script (0, 0) c w"

section \<open>A pool and a counter store to run the client against\<close>

text \<open>
  The account pool and the counter store are not part of \<^verbatim>\<open>queue_client.py\<close>. The
  theorems about the client hold for every \<open>externals\<close>; the definitions of this section
  give one, used where a statement is evaluated on a concrete input.
\<close>

datatype hold = InUse | Until int

record sess =
  s_username :: string
  s_active :: bool
  s_locks :: "string \<Rightarrow> hold option"
  s_reqs :: int

record outside =
  sessions :: "sess list"
  counters :: "string \<Rightarrow> rval option"
  clock :: int

text \<open>Modelled from the spec: the session pool's \<open>list_active_sessions\<close>, the ordered
  sequence of the sessions with their \<open>active\<close> flag.\<close>

definition sp_accounts_info :: "outside \<Rightarrow> acc_info list" where
  "sp_accounts_info x =
     map (\<lambda>s. \<lparr>info_username = s_username s, info_active = s_active s\<rparr>) (sessions x)"

text \<open>Modelled from the spec: the session pool's \<open>get_session(id)\<close>, the session of that
  name or nothing.\<close>

definition sp_get_account :: "string \<Rightarrow> outside \<Rightarrow> account option" where
  "sp_get_account u x =
     (case find (\<lambda>s. s_username s = u) (sessions x) of
        None \<Rightarrow> None
      | Some s \<Rightarrow> Some \<lparr>username = s_username s\<rparr>)"

text \<open>Modelled from the spec: a session is available for a queue when it is active and
  neither in use for that queue nor locked for it until a time still to come.\<close>

definition available :: "string \<Rightarrow> int \<Rightarrow> sess \<Rightarrow> bool" where
  "available q now s =
     (s_active s \<and>
      (case s_locks s q of None \<Rightarrow> True | Some InUse \<Rightarrow> False | Some (Until t) \<Rightarrow> t \<le> now))"

definition set_lock :: "string \<Rightarrow> string \<Rightarrow> hold option \<Rightarrow> sess \<Rightarrow> sess" where
  "set_lock u q h s = (if s_username s = u then s\<lparr>s_locks := (s_locks s)(q := h)\<rparr> else s)"

text \<open>Modelled from the spec: the session pool's \<open>acquire_for_queue(queue)\<close>. It hands out
  the first available session and marks it in use for the queue (at most one active use
  per session per queue); with no session available it returns nothing.\<close>

definition sp_get_for_queue_or_wait :: "string \<Rightarrow> outside \<Rightarrow> account option \<times> outside" where
  "sp_get_for_queue_or_wait q x =
     (case find (available q (clock x)) (sessions x) of
        None \<Rightarrow> (None, x)
      | Some s \<Rightarrow>
          (Some \<lparr>username = s_username s\<rparr>,
           x\<lparr>sessions := map (set_lock (s_username s) q (Some InUse)) (sessions x)\<rparr>))"

text \<open>Modelled from the spec: the session pool's \<open>release_unlock(id, queue, success_count)\<close>,
  the normal return: the session is available again.\<close>

definition sp_unlock :: "string \<Rightarrow> string \<Rightarrow> int \<Rightarrow> outside \<Rightarrow> outside" where
  "sp_unlock u q n x =
     x\<lparr>sessions :=
         map (\<lambda>s. if s_username s = u then (set_lock u q None s)\<lparr>s_reqs := s_reqs s + n\<rparr> else s)
           (sessions x)\<rparr>"

text \<open>Modelled from the spec: the session pool's
  \<open>release_lock_until(id, queue, reset_at, success_count)\<close>: the session is unavailable
  until the timestamp.\<close>

definition sp_lock_until :: "string \<Rightarrow> string \<Rightarrow> int \<Rightarrow> int \<Rightarrow> outside \<Rightarrow> outside" where
  "sp_lock_until u q t n x =
     x\<lparr>sessions :=
         map (\<lambda>s. if s_username s = u then (set_lock u q (Some (Until t)) s)\<lparr>s_reqs := s_reqs s + n\<rparr>
                  else s)
           (sessions x)\<rparr>"

text \<open>Modelled from the spec: the session pool's \<open>mark_inactive(id, reason)\<close>, the permanent
  removal from rotation.\<close>

definition sp_mark_inactive :: "string \<Rightarrow> string option \<Rightarrow> outside \<Rightarrow> outside" where
  "sp_mark_inactive u m x =
     x\<lparr>sessions := map (\<lambda>s. if s_username s = u then s\<lparr>s_active := False\<rparr> else s) (sessions x)\<rparr>"

text \<open>Modelled from the spec: the usage counter's \<open>get(key)\<close>, an integer or absent.\<close>

definition sp_redis_get :: "string \<Rightarrow> outside \<Rightarrow> rval option" where
  "sp_redis_get k x = counters x k"

text \<open>Modelled from the spec: the usage counter's \<open>set_with_expiry(key, value, ttl)\<close>.\<close>

definition sp_redis_set :: "string \<Rightarrow> int \<Rightarrow> int \<Rightarrow> outside \<Rightarrow> outside" where
  "sp_redis_set k v ex x = x\<lparr>counters := (counters x)(k \<mapsto> RInt v)\<rparr>"

text \<open>Modelled from the spec: the usage counter's \<open>increment(key)\<close>; a counter that is
  absent counts from zero.\<close>

definition sp_redis_incr :: "string \<Rightarrow> outside \<Rightarrow> outside" where
  "sp_redis_incr k x =
     (case counters x k of
        None \<Rightarrow> x\<lparr>counters := (counters x)(k \<mapsto> RInt 1)\<rparr>
      | Some v \<Rightarrow>
          (case py_int v of
             Inl e \<Rightarrow> x
           | Inr n \<Rightarrow> x\<lparr>counters := (counters x)(k \<mapsto> RInt (n + 1))\<rparr>))"

text \<open>The HTTP library's \<^verbatim>\<open>raise_for_status\<close> raises unless the status is a success
  (2xx).\<close>

definition httpx_raise_for_status :: "int \<Rightarrow> bool" where
  "httpx_raise_for_status s = (\<not> (200 \<le> s \<and> s \<le> 299))"

text \<open>
  The externals over \<open>outside\<close>, for an iteration order \<open>ord\<close> of Python's sets. A set holds
  each string once; the order in which it lists them follows their hashes, which change
  from one run of the interpreter to the next.
\<close>

definition sp_externals :: "(string list \<Rightarrow> string list) \<Rightarrow> outside externals" where
  "sp_externals ord =
     \<lparr>pool_accounts_info = sp_accounts_info,
      pool_get_account = sp_get_account,
      pool_get_for_queue_or_wait = sp_get_for_queue_or_wait,
      pool_unlock = sp_unlock,
      pool_lock_until = sp_lock_until,
      pool_mark_inactive = sp_mark_inactive,
      redis_get = sp_redis_get,
      redis_set = sp_redis_set,
      redis_incr = sp_redis_incr,
      utc_ts = clock,
      set_iter = ord,
      raise_for_status = httpx_raise_for_status\<rparr>"

text \<open>What a theorem asks of the iteration order: it lists each string of the list once.\<close>

definition set_order :: "(string list \<Rightarrow> string list) \<Rightarrow> bool" where
  "set_order ord = (\<forall>xs. distinct (ord xs) \<and> set (ord xs) = set xs)"

section \<open>Statements read from the specification\<close>

text \<open>The one report \<^verbatim>\<open>_close_ctx\<close> makes to the pool for the context \<open>x\<close>: mark-inactive
  before lock-until before unlock.\<close>

definition report :: "int \<Rightarrow> bool \<Rightarrow> string option \<Rightarrow> client \<Rightarrow> Ctx \<Rightarrow> event" where
  "report reset_at inactive msg c x =
     (if inactive then MarkInactive (username (acc x)) msg
      else if reset_at > 0 then LockUntil (username (acc x)) (queue c) reset_at (req_count x)
      else Unlock (username (acc x)) (queue c) (req_count x))"

text \<open>The counter store as the client reads it, and the usernames of the active accounts in
  the order the pool lists them.\<close>

definition tracked :: "'x externals \<Rightarrow> 'x world \<Rightarrow> string \<Rightarrow> rval option" where
  "tracked E w k = redis_get E k (ext w)"

definition listing :: "'x externals \<Rightarrow> 'x world \<Rightarrow> string list" where
  "listing E w = active_usernames (pool_accounts_info E (ext w))"

definition never_used :: "'x externals \<Rightarrow> 'x world \<Rightarrow> string \<Rightarrow> bool" where
  "never_used E w u = (tracked E w (ACCOUNT_REQ_COUNT_PREFIX @ u) = None)"

text \<open>The tracked usage count of an account whose counter holds an integer.\<close>

definition usage_count :: "(string \<Rightarrow> rval option) \<Rightarrow> string \<Rightarrow> int" where
  "usage_count get u =
     (case get (ACCOUNT_REQ_COUNT_PREFIX @ u) of
        None \<Rightarrow> 0
      | Some v \<Rightarrow> (case py_int v of Inl e \<Rightarrow> 0 | Inr n \<Rightarrow> n))"

text \<open>Every counter that exists for one of the accounts reads as an integer.\<close>

definition counts_are_ints :: "(string \<Rightarrow> rval option) \<Rightarrow> string list \<Rightarrow> bool" where
  "counts_are_ints get us =
     list_all (\<lambda>u. case get (ACCOUNT_REQ_COUNT_PREFIX @ u) of
                      None \<Rightarrow> True
                    | Some v \<Rightarrow> (case py_int v of Inl e \<Rightarrow> False | Inr n \<Rightarrow> True)) us"

text \<open>\<open>n < m\<close> for a bound \<open>m\<close> that starts at infinity.\<close>

definition below :: "int \<Rightarrow> int option \<Rightarrow> bool" where
  "below n m = (case m of None \<Rightarrow> True | Some k \<Rightarrow> n < k)"

text \<open>\<open>u\<close> has the smallest usage count of the listing and is the first to have it: the
  accounts before it have strictly more.\<close>

definition first_least :: "(string \<Rightarrow> rval option) \<Rightarrow> string list \<Rightarrow> string \<Rightarrow> bool" where
  "first_least get us u =
     (\<exists>pre post. us = pre @ u # post \<and>
        (\<forall>v\<in>set pre. usage_count get u < usage_count get v) \<and>
        (\<forall>v\<in>set post. usage_count get u \<le> usage_count get v))"

text \<open>The message as the specification words it: the entries without repetition, in the
  order of their first occurrence, joined; \<^verbatim>\<open>OK\<close> when the body has no \<^verbatim>\<open>errors\<close>.\<close>

definition dedup_stable :: "'a list \<Rightarrow> 'a list" where
  "dedup_stable xs = rev (remdups (rev xs))"

definition spec_err_msg :: "json \<Rightarrow> exn + string" where
  "spec_err_msg res =
     (case py_in ''errors'' res of
        Inl e \<Rightarrow> Inl e
      | Inr False \<Rightarrow> Inr ''OK''
      | Inr True \<Rightarrow>
          (case py_getitem res ''errors'' of
             Inl e \<Rightarrow> Inl e
           | Inr es \<Rightarrow>
               (case py_iter es of
                  Inl e \<Rightarrow> Inl e
                | Inr xs \<Rightarrow>
                    (case format_errors xs of
                       Inl e \<Rightarrow> Inl e
                     | Inr ss \<Rightarrow> Inr (join ''; '' (dedup_stable ss))))))"

text \<open>What a call of \<^verbatim>\<open>req\<close> left behind, read off its result.\<close>

definition outcome_of :: "(step \<times> retry \<times> client \<times> 'x world) option \<Rightarrow> step option" where
  "outcome_of res = map_option fst res"

definition retry_of :: "(step \<times> retry \<times> client \<times> 'x world) option \<Rightarrow> retry option" where
  "retry_of res = map_option (fst \<circ> snd) res"

definition client_of :: "(step \<times> retry \<times> client \<times> 'x world) option \<Rightarrow> client option" where
  "client_of res = map_option (fst \<circ> snd \<circ> snd) res"

definition world_of :: "(step \<times> retry \<times> client \<times> 'x world) option \<Rightarrow> 'x world option" where
  "world_of res = map_option (snd \<circ> snd \<circ> snd) res"

definition trace_of :: "(step \<times> retry \<times> client \<times> 'x world) option \<Rightarrow> event list option" where
  "trace_of res = map_option trace (world_of res)"

text \<open>What the final step asks of the HTTP library: \<^verbatim>\<open>raise_for_status\<close> raises for
  every status code that is neither 2xx nor 3xx.\<close>

definition raises_outside_2xx_3xx :: "'x externals \<Rightarrow> bool" where
  "raises_outside_2xx_3xx E = (\<forall>s. \<not> (200 \<le> s \<and> s < 400) \<longrightarrow> raise_for_status E s)"

text \<open>Connect failures (\<^verbatim>\<open>ConnectError\<close>, \<^verbatim>\<open>ConnectTimeout\<close>), and how many of them a
  script holds.\<close>

definition connect_failure :: "transport_error \<Rightarrow> bool" where
  "connect_failure f = (f = ConnectError \<or> f = ConnectTimeout)"

fun connect_failures :: "net list \<Rightarrow> nat" where
  "connect_failures [] = 0"
| "connect_failures (Fails f # ns) = (if connect_failure f then 1 else 0) + connect_failures ns"
| "connect_failures (Reply rep # ns) = connect_failures ns"

text \<open>The next call of \<^verbatim>\<open>req\<close>, made on the client and the world the previous call
  left.\<close>

definition then_req ::
  "'x externals \<Rightarrow> net list \<Rightarrow> (step \<times> retry \<times> client \<times> 'x world) option
     \<Rightarrow> (step \<times> retry \<times> client \<times> 'x world) option" where
  "then_req E script res =
     (case res of None \<Rightarrow> None | Some (s, r, c, w) \<Rightarrow> req E script c w)"

text \<open>The events that close a transport or report a session back to the pool.\<close>

fun is_release :: "event \<Rightarrow> bool" where
  "is_release (Aclose i) = True"
| "is_release (Unlock u q n) = True"
| "is_release (LockUntil u q t n) = True"
| "is_release (MarkInactive u m) = True"
| "is_release e = False"

section \<open>Concrete inputs\<close>

definition ctx_A :: Ctx where
  "ctx_A = \<lparr>acc = \<lparr>username = ''A''\<rparr>, clt = 0, req_count = 4\<rparr>"

text \<open>A client of the queue \<^verbatim>\<open>search\<close> with no counter store, holding a context for
  account \<^verbatim>\<open>A\<close>.\<close>

definition c_direct :: client where
  "c_direct =
     \<lparr>queue = ''search'', proxy = None, redis_conn = False, change = 15, ave = True,
      ctx = Some ctx_A, self_req_count = None\<rparr>"

text \<open>Two sessions: \<^verbatim>\<open>A\<close>, in use for the queue, and \<^verbatim>\<open>B\<close>, free; no counters yet.\<close>

definition x_two :: outside where
  "x_two =
     \<lparr>sessions =
        [\<lparr>s_username = ''A'', s_active = True, s_locks = [''search'' \<mapsto> InUse], s_reqs = 0\<rparr>,
         \<lparr>s_username = ''B'', s_active = True, s_locks = Map.empty, s_reqs = 0\<rparr>],
      counters = Map.empty,
      clock = 1000\<rparr>"

definition w_two :: "outside world" where
  "w_two = \<lparr>ext = x_two, trace = [], next_clt = 1, open_clts = [0]\<rparr>"

text \<open>A client with a counter store and usage-balanced selection, no context open.\<close>

definition c_balanced :: client where
  "c_balanced =
     \<lparr>queue = ''search'', proxy = None, redis_conn = True, change = 15, ave = True,
      ctx = None, self_req_count = None\<rparr>"

text \<open>Sessions \<^verbatim>\<open>[A:5, B:2, C:unused]\<close> with an inactive \<^verbatim>\<open>D\<close> among them, and
  \<^verbatim>\<open>[A:5, B:2]\<close>; the counters hold text, as a Redis client returns it.\<close>

definition x_abc :: outside where
  "x_abc =
     \<lparr>sessions =
        [\<lparr>s_username = ''A'', s_active = True, s_locks = Map.empty, s_reqs = 0\<rparr>,
         \<lparr>s_username = ''D'', s_active = False, s_locks = Map.empty, s_reqs = 0\<rparr>,
         \<lparr>s_username = ''B'', s_active = True, s_locks = Map.empty, s_reqs = 0\<rparr>,
         \<lparr>s_username = ''C'', s_active = True, s_locks = Map.empty, s_reqs = 0\<rparr>],
      counters = [''account_req_count_A'' \<mapsto> RStr ''5'', ''account_req_count_B'' \<mapsto> RStr ''2''],
      clock = 1000\<rparr>"

definition x_ab :: outside where
  "x_ab =
     \<lparr>sessions =
        [\<lparr>s_username = ''A'', s_active = True, s_locks = Map.empty, s_reqs = 0\<rparr>,
         \<lparr>s_username = ''B'', s_active = True, s_locks = Map.empty, s_reqs = 0\<rparr>],
      counters = [''account_req_count_A'' \<mapsto> RStr ''5'', ''account_req_count_B'' \<mapsto> RStr ''2''],
      clock = 1000\<rparr>"

text \<open>A world with nothing open yet.\<close>

definition w_of :: "outside \<Rightarrow> outside world" where
  "w_of x = \<lparr>ext = x, trace = [], next_clt = 0, open_clts = []\<rparr>"

text \<open>An iteration order a set of strings can have: the reverse of the order in which the
  strings were first added.\<close>

definition rev_order :: "string list \<Rightarrow> string list" where
  "rev_order xs = rev (remdups xs)"

definition body_two_errors :: json where
  "body_two_errors =
     JObj [(''errors'',
        JArr [JObj [(''code'', JInt 88), (''message'', JStr ''Rate limit exceeded'')],
              JObj [(''code'', JInt 32), (''message'', JStr ''Could not authenticate you'')]])]"

definition body_dup_errors :: json where
  "body_dup_errors =
     JObj [(''errors'',
        JArr [JObj [(''code'', JInt 88), (''message'', JStr ''Rate limit exceeded'')],
              JObj [(''code'', JInt 32), (''message'', JStr ''Could not authenticate you'')],
              JObj [(''code'', JInt 88), (''message'', JStr ''Rate limit exceeded'')]])]"

definition body_no_errors :: json where
  "body_no_errors = JObj [(''errors'', JArr []), (''data'', JObj [])]"

text \<open>Responses: rate-limited (429 with no quota left), rate-limited and carrying a ban
  signature, and a plain success.\<close>

definition rep_rate_limited :: response where
  "rep_rate_limited =
     \<lparr>status_code = 429,
      headers = [''x-rate-limit-remaining'' \<mapsto> ''0'', ''x-rate-limit-reset'' \<mapsto> ''1900''],
      json_body = Some (JObj [(''errors'',
        JArr [JObj [(''code'', JInt 88), (''message'', JStr ''Rate limit exceeded'')]])]),
      body_text = []\<rparr>"


definition rep_ok :: response where
  "rep_ok =
     \<lparr>status_code = 200,
      headers = [''x-rate-limit-remaining'' \<mapsto> ''49'', ''x-rate-limit-reset'' \<mapsto> ''1900''],
      json_body = Some (JObj [(''data'', JObj [])]),
      body_text = []\<rparr>"

text \<open>The usage-balanced client holding a context for \<^verbatim>\<open>A\<close>, the only session of the pool.\<close>

definition c_balanced_A :: client where
  "c_balanced_A = c_balanced\<lparr>ctx := Some ctx_A\<rparr>"



text \<open>A server error whose body reports an error no rule names, and one with no JSON
  body.\<close>

definition rep_500_error :: response where
  "rep_500_error =
     \<lparr>status_code = 500,
      headers = Map.empty,
      json_body = Some (JObj [(''errors'',
        JArr [JObj [(''code'', JInt 130), (''message'', JStr ''Over capacity'')]])]),
      body_text = []\<rparr>"

definition rep_500_plain :: response where
  "rep_500_plain =
     \<lparr>status_code = 500, headers = Map.empty, json_body = None,
      body_text = ''Internal Server Error''\<rparr>"



text \<open>The client without a counter store and a threshold of one request; a client with
  a counter store and direct rotation (\<^verbatim>\<open>ave=False\<close>); the two sessions with the global
  count and the count of \<^verbatim>\<open>A\<close> at \<open>n\<close>; the context a switch to \<^verbatim>\<open>B\<close> installs.\<close>

definition c_every :: client where
  "c_every = c_direct\<lparr>change := 1\<rparr>"

definition c_store :: client where
  "c_store = c_direct\<lparr>redis_conn := True, ave := False\<rparr>"

definition w_count :: "string \<Rightarrow> outside world" where
  "w_count n =
     w_two\<lparr>ext := x_two\<lparr>counters :=
        [''accounts_total_count'' \<mapsto> RStr n, ''account_req_count_A'' \<mapsto> RStr n]\<rparr>\<rparr>"

definition ctx_B :: Ctx where
  "ctx_B = \<lparr>acc = \<lparr>username = ''B''\<rparr>, clt = 1, req_count = 0\<rparr>"



definition rep_131_null :: response where
  "rep_131_null =
     \<lparr>status_code = 200,
      headers = [''x-rate-limit-remaining'' \<mapsto> ''49'', ''x-rate-limit-reset'' \<mapsto> ''1900''],
      json_body = Some (JObj [(''errors'',
          JArr [JObj [(''code'', JInt 131), (''message'', JStr ''Dependency: Internal error.'')]]),
        (''data'', JNull)]),
      body_text = []\<rparr>"

definition x_tie :: outside where
  "x_tie =
     \<lparr>sessions =
        [\<lparr>s_username = ''A'', s_active = True, s_locks = Map.empty, s_reqs = 0\<rparr>,
         \<lparr>s_username = ''B'', s_active = True, s_locks = Map.empty, s_reqs = 0\<rparr>,
         \<lparr>s_username = ''C'', s_active = True, s_locks = Map.empty, s_reqs = 0\<rparr>],
      counters = [''account_req_count_A'' \<mapsto> RStr ''7'', ''account_req_count_B'' \<mapsto> RStr ''2'',
                  ''account_req_count_C'' \<mapsto> RStr ''2''],
      clock = 1000\<rparr>"

section \<open>Properties\<close>

subsection \<open>Releasing the context\<close>

text \<open>
  C10. Every call of \<^verbatim>\<open>_close_ctx\<close> makes at most one report to the pool. With no context
  open it changes nothing: no pool call, no transport closed. With the context \<open>x\<close> open
  it clears \<^verbatim>\<open>self.ctx\<close>, closes the transport of \<open>x\<close>, and then makes exactly one
  report: mark-inactive when \<open>inactive\<close> is set (also when a positive reset time is given),
  else lock-until when \<open>reset_at > 0\<close>, else an unlock carrying the success count of \<open>x\<close>.
  The trace grows by the close and that one report, and the pool sees that one operation.
\<close>

theorem close_ctx_one_report:
  "(ctx c = None \<longrightarrow> close_ctx E reset_at inactive msg c w = (c, w)) \<and>
   (\<forall>x. ctx c = Some x \<longrightarrow>
      (case close_ctx E reset_at inactive msg c w of
         (c', w') \<Rightarrow>
           ctx c' = None \<and>
           open_clts w' = removeAll (clt x) (open_clts w) \<and>
           trace w' = trace w @ [Aclose (clt x), report reset_at inactive msg c x] \<and>
           ext w' =
             (if inactive then pool_mark_inactive E (username (acc x)) msg (ext w)
              else if reset_at > 0
                then pool_lock_until E (username (acc x)) (queue c) reset_at (req_count x) (ext w)
              else pool_unlock E (username (acc x)) (queue c) (req_count x) (ext w))))"
  by (simp add: close_ctx_def report_def aclose_def mark_inactive_def lock_until_def
      unlock_def Let_def)

theorem close_ctx_one_report_witness:
  "ctx c_direct = Some ctx_A \<and>
   trace (snd (close_ctx (sp_externals remdups) 100 True (Some ''banned'') c_direct w_two))
     = [Aclose 0, MarkInactive ''A'' (Some ''banned'')] \<and>
   trace (snd (close_ctx (sp_externals remdups) 100 False None c_direct w_two))
     = [Aclose 0, LockUntil ''A'' ''search'' 100 4] \<and>
   trace (snd (close_ctx (sp_externals remdups) (- 1) False None c_direct w_two))
     = [Aclose 0, Unlock ''A'' ''search'' 4] \<and>
   close_ctx (sp_externals remdups) 100 True None (c_direct\<lparr>ctx := None\<rparr>) w_two
     = (c_direct\<lparr>ctx := None\<rparr>, w_two)"
  using close_ctx_one_report [of c_direct "sp_externals remdups" 100 True "Some ''banned''" w_two]
    close_ctx_one_report [of c_direct "sp_externals remdups" 100 False None w_two]
    close_ctx_one_report [of c_direct "sp_externals remdups" "- 1" False None w_two]
    close_ctx_one_report [of "c_direct\<lparr>ctx := None\<rparr>" "sp_externals remdups" 100 True None w_two]
  by (simp add: c_direct_def ctx_A_def w_two_def report_def split: prod.splits)

subsection \<open>Usage-balanced selection\<close>

lemma scan_unused:
  assumes "counts_are_ints get (pre @ u # post)"
    and "\<forall>v\<in>set pre. get (ACCOUNT_REQ_COUNT_PREFIX @ v) \<noteq> None"
    and "get (ACCOUNT_REQ_COUNT_PREFIX @ u) = None"
  shows "least_used_scan get (pre @ u # post) m l = Inr (Some u)"
  using assms
  by (induction pre arbitrary: m l) (auto simp: counts_are_ints_def split: option.splits sum.splits)


lemma first_least_here:
  assumes "\<forall>v\<in>set us. usage_count get a \<le> usage_count get v"
  shows "first_least get (a # us) a"
  unfolding first_least_def
  apply (rule exI [of _ "[]"])
  apply (rule exI [of _ us])
  using assms by simp

lemma first_least_later:
  assumes "first_least get us u" and "usage_count get u < usage_count get a"
  shows "first_least get (a # us) u"
proof -
  from assms(1) obtain pre post where h: "us = pre @ u # post"
    "\<forall>v\<in>set pre. usage_count get u < usage_count get v"
    "\<forall>v\<in>set post. usage_count get u \<le> usage_count get v"
    unfolding first_least_def by blast
  show ?thesis
    unfolding first_least_def
    apply (rule exI [of _ "a # pre"])
    apply (rule exI [of _ post])
    using h assms(2) by simp
qed

lemma scan_used:
  assumes "counts_are_ints get us"
    and "\<forall>v\<in>set us. get (ACCOUNT_REQ_COUNT_PREFIX @ v) \<noteq> None"
  shows "(least_used_scan get us m l = Inr l \<and> (\<forall>v\<in>set us. \<not> below (usage_count get v) m)) \<or>
         (\<exists>u. least_used_scan get us m l = Inr (Some u) \<and> below (usage_count get u) m \<and>
            first_least get us u)"
  using assms
proof (induction us arbitrary: m l)
  case Nil
  then show ?case by simp
next
  case (Cons a us)
  from Cons.prems obtain v n where v: "get (ACCOUNT_REQ_COUNT_PREFIX @ a) = Some v" "py_int v = Inr n"
    by (auto simp: counts_are_ints_def split: option.splits sum.splits)
  then have ua: "usage_count get a = n" by (simp add: usage_count_def)
  have rest: "counts_are_ints get us" "\<forall>v\<in>set us. get (ACCOUNT_REQ_COUNT_PREFIX @ v) \<noteq> None"
    using Cons.prems by (auto simp: counts_are_ints_def)
  show ?case
  proof (cases "below n m")
    case True
    then have step: "least_used_scan get (a # us) m l = least_used_scan get us (Some n) (Some a)"
      using v by (simp add: below_def)
    from Cons.IH [OF rest, of "Some n" "Some a"] show ?thesis
    proof
      assume h: "least_used_scan get us (Some n) (Some a) = Inr (Some a) \<and>
                 (\<forall>v\<in>set us. \<not> below (usage_count get v) (Some n))"
      then have "\<forall>v\<in>set us. usage_count get a \<le> usage_count get v"
        using ua by (auto simp: below_def)
      then have "first_least get (a # us) a" by (rule first_least_here)
      then show ?thesis using h step True ua by simp
    next
      assume "\<exists>u. least_used_scan get us (Some n) (Some a) = Inr (Some u) \<and>
                below (usage_count get u) (Some n) \<and> first_least get us u"
      then obtain u where h: "least_used_scan get us (Some n) (Some a) = Inr (Some u)"
        "below (usage_count get u) (Some n)" "first_least get us u" by blast
      have lt: "usage_count get u < usage_count get a" using h(2) ua by (simp add: below_def)
      have "below (usage_count get u) m"
        using h(2) True by (cases m) (simp_all add: below_def)
      moreover have "first_least get (a # us) u" using h(3) lt by (rule first_least_later)
      ultimately show ?thesis using h(1) step by simp
    qed
  next
    case False
    then have step: "least_used_scan get (a # us) m l = least_used_scan get us m l"
      using v by (simp add: below_def)
    from Cons.IH [OF rest, of m l] show ?thesis
    proof
      assume h: "least_used_scan get us m l = Inr l \<and> (\<forall>v\<in>set us. \<not> below (usage_count get v) m)"
      then show ?thesis using step False ua by simp
    next
      assume "\<exists>u. least_used_scan get us m l = Inr (Some u) \<and>
                below (usage_count get u) m \<and> first_least get us u"
      then obtain u where h: "least_used_scan get us m l = Inr (Some u)"
        "below (usage_count get u) m" "first_least get us u" by blast
      have lt: "usage_count get u < usage_count get a"
        using h(2) False ua by (cases m) (simp_all add: below_def)
      have "first_least get (a # us) u" using h(3) lt by (rule first_least_later)
      then show ?thesis using h(1,2) step by simp
    qed
  qed
qed


text \<open>
  C7. Usage-balanced selection (\<^verbatim>\<open>_get_least_used_account\<close> with a counter store whose
  counters read as integers) goes through the active accounts in listing order. It
  returns the first account that was never used, if there is one; otherwise the account
  with the smallest tracked count, the first of them in listing order when several share
  it; and nothing when no account is active. The witness runs it on
  \<^verbatim>\<open>[A:5, B:2, C:unused]\<close>, which gives \<^verbatim>\<open>C\<close>, on \<^verbatim>\<open>[A:5, B:2]\<close>, which gives \<^verbatim>\<open>B\<close>, and
  on \<^verbatim>\<open>[A:7, B:2, C:2]\<close>, which gives \<^verbatim>\<open>B\<close>.
\<close>

theorem least_used_selection:
  assumes "redis_conn c"
    and "counts_are_ints (tracked E w) (listing E w)"
  shows
    "(\<forall>pre u post. listing E w = pre @ u # post \<and> never_used E w u
          \<and> (\<forall>v\<in>set pre. \<not> never_used E w v)
        \<longrightarrow> get_least_used_account E c w = Inr (Some u)) \<and>
     (listing E w \<noteq> [] \<and> (\<forall>v\<in>set (listing E w). \<not> never_used E w v)
        \<longrightarrow> (\<exists>u. get_least_used_account E c w = Inr (Some u)
               \<and> first_least (tracked E w) (listing E w) u)) \<and>
     (listing E w = [] \<longrightarrow> get_least_used_account E c w = Inr None)"
proof -
  have run: "get_least_used_account E c w
               = least_used_scan (tracked E w) (listing E w) None None"
  proof -
    have "tracked E w = (\<lambda>k. redis_get E k (ext w))"
      by (rule ext) (simp add: tracked_def)
    then show ?thesis
      using assms(1) by (simp add: get_least_used_account_def listing_def)
  qed
  have p1: "get_least_used_account E c w = Inr (Some u)"
    if "listing E w = pre @ u # post" "never_used E w u" "\<forall>v\<in>set pre. \<not> never_used E w v"
    for pre u post
    using scan_unused [of "tracked E w" pre u post None None] that assms(2)
    by (simp add: run never_used_def)
  have p2: "\<exists>u. get_least_used_account E c w = Inr (Some u)
               \<and> first_least (tracked E w) (listing E w) u"
    if ne: "listing E w \<noteq> []" and used: "\<forall>v\<in>set (listing E w). \<not> never_used E w v"
  proof -
    from used have u': "\<forall>v\<in>set (listing E w). tracked E w (ACCOUNT_REQ_COUNT_PREFIX @ v) \<noteq> None"
      by (simp add: never_used_def)
    from scan_used [OF assms(2) u', of None None] show ?thesis
    proof
      assume "least_used_scan (tracked E w) (listing E w) None None = Inr None \<and>
        (\<forall>v\<in>set (listing E w). \<not> below (usage_count (tracked E w) v) None)"
      then have all: "\<forall>v\<in>set (listing E w). False" by (simp add: below_def)
      from ne obtain a rest where "listing E w = a # rest" by (cases "listing E w") auto
      then have "a \<in> set (listing E w)" by simp
      with all have False by blast
      then show ?thesis ..
    next
      assume "\<exists>u. least_used_scan (tracked E w) (listing E w) None None = Inr (Some u) \<and>
         below (usage_count (tracked E w) u) None \<and> first_least (tracked E w) (listing E w) u"
      then show ?thesis unfolding run by blast
    qed
  qed
  have p3: "get_least_used_account E c w = Inr None" if "listing E w = []"
    using that by (simp add: run)
  from p1 p2 p3 show ?thesis by blast
qed

theorem least_used_selection_witness:
  "redis_conn c_balanced \<and>
   counts_are_ints (tracked (sp_externals remdups) (w_of x_abc)) (listing (sp_externals remdups) (w_of x_abc)) \<and>
   listing (sp_externals remdups) (w_of x_abc) = [''A'', ''B'', ''C''] \<and>
   get_least_used_account (sp_externals remdups) c_balanced (w_of x_abc) = Inr (Some ''C'') \<and>
   get_least_used_account (sp_externals remdups) c_balanced (w_of x_ab) = Inr (Some ''B'') \<and>
   get_least_used_account (sp_externals remdups) c_balanced (w_of x_tie) = Inr (Some ''B'')"
  using least_used_selection [of c_balanced "sp_externals remdups" "w_of x_abc"]
    least_used_selection [of c_balanced "sp_externals remdups" "w_of x_ab"]
    least_used_selection [of c_balanced "sp_externals remdups" "w_of x_tie"]
  by (simp add: c_balanced_def w_of_def x_abc_def x_ab_def x_tie_def sp_externals_def
        sp_accounts_info_def
        sp_redis_get_def tracked_def listing_def active_usernames_def counts_are_ints_def
        get_least_used_account_def ACCOUNT_REQ_COUNT_PREFIX_def
        int_of_str_def strip_def is_space_def digit_val_def)

subsection \<open>The error message\<close>

lemma set_order_rev_order: "set_order rev_order"
  by (simp add: set_order_def rev_order_def)

lemma set_order_remdups: "set_order remdups"
  by (simp add: set_order_def)

text \<open>
  C9, as stated, fails. The entries \<^verbatim>\<open>(88) Rate limit exceeded\<close> and
  \<^verbatim>\<open>(32) Could not authenticate you\<close> go through a \<^verbatim>\<open>set\<close>; under an iteration order that
  lists the second before the first the client's message starts with \<^verbatim>\<open>(32)\<close>, where the
  first-occurrence order of the specification starts with \<^verbatim>\<open>(88)\<close>. And a body whose
  \<^verbatim>\<open>errors\<close> list is empty gives the empty message, not \<^verbatim>\<open>OK\<close>.
\<close>

theorem err_msg_order_counterexample:
  "set_order rev_order \<and>
   build_err_msg (sp_externals rev_order) body_two_errors
     = Inr ''(32) Could not authenticate you; (88) Rate limit exceeded'' \<and>
   spec_err_msg body_two_errors
     = Inr ''(88) Rate limit exceeded; (32) Could not authenticate you'' \<and>
   build_err_msg (sp_externals rev_order) body_no_errors = Inr ''''"
  by (simp add: set_order_rev_order build_err_msg_def spec_err_msg_def body_two_errors_def
      body_no_errors_def sp_externals_def rev_order_def dedup_stable_def py_str_def
      show_int_def show_nat.simps digit_char_def)

lemma format_error_paren:
  "format_error x = Inr s \<Longrightarrow> \<exists>t. s = CHR ''('' # t"
  by (cases x) (auto split: option.splits)

lemma format_errors_paren:
  "format_errors xs = Inr ss \<Longrightarrow> \<forall>s\<in>set ss. \<exists>t. s = CHR ''('' # t"
proof (induction xs arbitrary: ss)
  case Nil
  then show ?case by simp
next
  case (Cons x xs)
  then show ?case
    by (auto split: sum.splits dest: format_error_paren)
qed

lemma join_paren:
  assumes "\<forall>s\<in>set ys. \<exists>t. s = CHR ''('' # t"
  shows "join sep ys \<noteq> ''OK''"
proof (cases ys)
  case Nil
  then show ?thesis by simp
next
  case (Cons y rest)
  with assms obtain t where "y = CHR ''('' # t" by auto
  with Cons show ?thesis by (cases rest) auto
qed

text \<open>
  C9, amended. For every body whose error entries format without an exception, and every
  iteration order of sets, the message is the join of the formatted entries, each once,
  in some order (the set's, not the order of first occurrence); and the message is
  \<^verbatim>\<open>OK\<close> exactly when the body has no \<^verbatim>\<open>errors\<close> key.
\<close>

theorem err_msg_dedup:
  assumes "set_order (set_iter E)"
  shows
    "((build_err_msg E res = Inr ''OK'') = (py_in ''errors'' res = Inr False)) \<and>
     (\<forall>es xs ss. py_in ''errors'' res = Inr True \<and> py_getitem res ''errors'' = Inr es
          \<and> py_iter es = Inr xs \<and> format_errors xs = Inr ss
        \<longrightarrow> (\<exists>ys. build_err_msg E res = Inr (join ''; '' ys) \<and> distinct ys \<and> set ys = set ss))"
proof -
  have ord: "distinct (set_iter E ss) \<and> set (set_iter E ss) = set ss" for ss
    using assms by (simp add: set_order_def)
  have ok: "(build_err_msg E res = Inr ''OK'') = (py_in ''errors'' res = Inr False)"
  proof (cases "py_in ''errors'' res")
    case (Inl e)
    then show ?thesis by (simp add: build_err_msg_def)
  next
    case (Inr b)
    show ?thesis
    proof (cases b)
      case False
      with Inr show ?thesis by (simp add: build_err_msg_def)
    next
      case True
      have "build_err_msg E res \<noteq> Inr ''OK''"
      proof (cases "py_getitem res ''errors''")
        case (Inl e)
        with Inr True show ?thesis by (simp add: build_err_msg_def)
      next
        case es: (Inr es)
        show ?thesis
        proof (cases "py_iter es")
          case (Inl e)
          with Inr True es show ?thesis by (simp add: build_err_msg_def)
        next
          case xs: (Inr xs)
          show ?thesis
          proof (cases "format_errors xs")
            case (Inl e)
            with Inr True es xs show ?thesis by (simp add: build_err_msg_def)
          next
            case ss: (Inr ss)
            from format_errors_paren [OF ss] ord [of ss]
            have "\<forall>s\<in>set (set_iter E ss). \<exists>t. s = CHR ''('' # t" by simp
            then have "join ''; '' (set_iter E ss) \<noteq> ''OK''" by (rule join_paren)
            with Inr True es xs ss show ?thesis by (simp add: build_err_msg_def)
          qed
        qed
      qed
      with Inr True show ?thesis by simp
    qed
  qed
  have dd: "\<exists>ys. build_err_msg E res = Inr (join ''; '' ys) \<and> distinct ys \<and> set ys = set ss"
    if "py_in ''errors'' res = Inr True" "py_getitem res ''errors'' = Inr es"
       "py_iter es = Inr xs" "format_errors xs = Inr ss" for es xs ss
  proof -
    have "build_err_msg E res = Inr (join ''; '' (set_iter E ss))"
      using that by (simp add: build_err_msg_def)
    with ord [of ss] show ?thesis by blast
  qed
  from ok dd show ?thesis by blast
qed

theorem err_msg_dedup_witness:
  "set_order (set_iter (sp_externals remdups)) \<and>
   py_in ''errors'' body_dup_errors = Inr True \<and>
   build_err_msg (sp_externals remdups) body_dup_errors
     = Inr ''(32) Could not authenticate you; (88) Rate limit exceeded'' \<and>
   build_err_msg (sp_externals remdups) (JObj [(''data'', JObj [])]) = Inr ''OK''"
  using err_msg_dedup [of "sp_externals remdups" body_dup_errors]
  by (simp add: set_order_def build_err_msg_def body_dup_errors_def
      sp_externals_def py_str_def show_int_def show_nat.simps digit_char_def)

subsection \<open>Evaluation on concrete inputs\<close>

lemmas eval_py =
  int_of_str_def strip_def is_space_def digit_val_def py_str_def show_int_def show_nat.simps
  digit_char_def header_int_def rep_json_def build_err_msg_def dependency_check_def

lemmas eval_sp =
  sp_externals_def sp_accounts_info_def sp_get_account_def sp_get_for_queue_or_wait_def
  sp_unlock_def sp_lock_until_def sp_mark_inactive_def sp_redis_get_def sp_redis_set_def
  sp_redis_incr_def httpx_raise_for_status_def available_def set_lock_def

lemmas eval_client =
  req_def attempt_def check_rep_def close_and_raise_def close_ctx_def get_ctx_def
  change_acc_usage_def change_ctx_def org_change_def switch_due_def get_total_count_def
  get_least_used_account_def active_usernames_def increment_account_usage_def
  increment_total_count_def make_client_def aclose_def unlock_def lock_until_def
  mark_inactive_def get_for_queue_or_wait_def sent_def
  ACCOUNT_REQ_COUNT_PREFIX_def ACCOUNT_TOTAL_COUNT_def Let_def

lemmas eval_result = outcome_of_def retry_of_def client_of_def world_of_def trace_of_def

subsection \<open>Prefixes and selection\<close>




lemma close_ctx_config:
  "close_ctx E t i m c w = (c', w') \<Longrightarrow>
     queue c' = queue c \<and> redis_conn c' = redis_conn c \<and> change c' = change c \<and> ave c' = ave c
     \<and> proxy c' = proxy c"
  by (auto simp: close_ctx_def Let_def split: option.splits if_splits)




lemma check_rep_parsed:
  assumes "header_int rep ''x-rate-limit-remaining'' = Inr limit_remaining"
    and "header_int rep ''x-rate-limit-reset'' = Inr limit_reset"
    and "build_err_msg E (rep_json rep) = Inr err_msg"
  shows "check_rep E rep c w =
     (if startswith err_msg ''(336) The following features cannot be null''
          then (Inl (SystemExit 1), c, w)
          else if limit_remaining = 0 \<and> limit_reset > 0
          then close_and_raise E limit_reset False None c w
          else if startswith err_msg ''(88) Rate limit exceeded'' \<and> limit_remaining > 0
          then close_and_raise E (- 1) True (Some err_msg) c w
          else if startswith err_msg ''(326) Authorization: Denied by access control''
          then close_and_raise E (- 1) True (Some err_msg) c w
          else if startswith err_msg ''(32) Could not authenticate you''
          then close_and_raise E (- 1) True (Some err_msg) c w
          else if err_msg = ''OK'' \<and> status_code rep = 403
          then close_and_raise E (- 1) True None c w
          else
            (case dependency_check rep (rep_json rep) err_msg of
               Inl e \<Rightarrow> (Inl e, c, w)
             | Inr err_msg' \<Rightarrow>
                 if status_code rep = 200
                    \<and> contains err_msg' ''_Missing: No status found with that ID''
                 then (Inr (), c, w)
                 else if status_code rep = 200 \<and> contains err_msg' ''Authorization''
                 then (Inr (), c, w)
                 else if err_msg' \<noteq> ''OK''
                 then (Inr (), c, w)
                 else if raise_for_status E (status_code rep)
                 then close_and_raise E (utc_ts E (ext w) + 60 * 15) False None c w
                 else (Inr (), c, w)))"
  using assms by (simp add: check_rep_def Let_def)

lemma close_and_raise_open:
  assumes "ctx c = Some x"
  shows "close_and_raise E reset_at inactive msg c w =
     (Inl HandledError, c\<lparr>ctx := None, self_req_count := Some 0\<rparr>,
      (if inactive then mark_inactive E (username (acc x)) msg (aclose (clt x) w)
       else if reset_at > 0
         then lock_until E (username (acc x)) (queue c) reset_at (req_count x) (aclose (clt x) w)
       else unlock E (username (acc x)) (queue c) (req_count x) (aclose (clt x) w)))"
  using assms by (simp add: close_and_raise_def close_ctx_def Let_def)

subsection \<open>The rate-limit rule\<close>





subsection \<open>What the classifier raises\<close>

lemma int_of_str_exn: "int_of_str s = Inl e \<Longrightarrow> e = ValueError"
  by (auto simp: int_of_str_def split: list.splits if_splits option.splits)

lemma header_int_exn: "header_int rep n = Inl e \<Longrightarrow> e = ValueError"
  by (auto simp: header_int_def split: option.splits dest: int_of_str_exn)

lemma py_in_exn: "py_in k v = Inl e \<Longrightarrow> e = TypeError"
  by (cases v) auto

lemma py_getitem_exn: "py_getitem v k = Inl e \<Longrightarrow> e = KeyError \<or> e = TypeError"
  by (cases v) (auto split: option.splits)

lemma py_iter_exn: "py_iter v = Inl e \<Longrightarrow> e = TypeError"
  by (cases v) auto

lemma format_error_exn: "format_error v = Inl e \<Longrightarrow> e = KeyError \<or> e = AttributeError"
  by (cases v) (auto split: option.splits)

lemma format_errors_exn: "format_errors xs = Inl e \<Longrightarrow> e = KeyError \<or> e = AttributeError"
  by (induction xs) (auto split: sum.splits dest: format_error_exn)

lemma build_err_msg_exn:
  "build_err_msg E res = Inl e \<Longrightarrow> e = TypeError \<or> e = KeyError \<or> e = AttributeError"
  by (auto simp: build_err_msg_def split: sum.splits bool.splits
      dest: py_in_exn py_getitem_exn py_iter_exn format_errors_exn)

lemma dependency_check_exn:
  "dependency_check rep res m = Inl e \<Longrightarrow> e = AbortReqError \<or> e = TypeError \<or> e = KeyError"
  by (auto simp: dependency_check_def split: if_splits sum.splits bool.splits
      dest: py_in_exn py_getitem_exn)

lemma close_and_raise_exn:
  "close_and_raise E t i m c w = (res, c', w') \<Longrightarrow> res = Inl HandledError"
  by (auto simp: close_and_raise_def split: prod.splits)

text \<open>What the classifier can raise, and that it touches the client and the world only
  when it raises \<open>HandledError\<close>.\<close>

lemma check_rep_cases:
  "(\<exists>e. check_rep E rep c w = (Inl e, c, w) \<and>
        (e = ValueError \<or> e = TypeError \<or> e = KeyError \<or> e = AttributeError
         \<or> e = AbortReqError \<or> e = SystemExit 1)) \<or>
   check_rep E rep c w = (Inr (), c, w) \<or>
   (\<exists>t i m. check_rep E rep c w = close_and_raise E t i m c w)"
proof (cases "header_int rep ''x-rate-limit-remaining''")
  case (Inl e)
  then show ?thesis using header_int_exn [OF Inl] by (simp add: check_rep_def)
next
  case rem: (Inr limit_remaining)
  show ?thesis
  proof (cases "header_int rep ''x-rate-limit-reset''")
    case (Inl e)
    then show ?thesis using rem header_int_exn [OF Inl] by (simp add: check_rep_def)
  next
    case reset: (Inr limit_reset)
    show ?thesis
    proof (cases "build_err_msg E (rep_json rep)")
      case (Inl e)
      then show ?thesis using rem reset build_err_msg_exn [OF Inl]
        by (auto simp: check_rep_def Let_def)
    next
      case msg: (Inr m)
      show ?thesis
      proof (cases "dependency_check rep (rep_json rep) m")
        case (Inl e)
        then show ?thesis
          using dependency_check_exn [OF Inl] check_rep_parsed [OF rem reset msg, of c w]
          by (cases "startswith m ''(336) The following features cannot be null''";
              cases "limit_remaining = 0 \<and> limit_reset > 0";
              cases "startswith m ''(88) Rate limit exceeded'' \<and> limit_remaining > 0";
              cases "startswith m ''(326) Authorization: Denied by access control''";
              cases "startswith m ''(32) Could not authenticate you''";
              cases "m = ''OK'' \<and> status_code rep = 403") (simp_all, blast+)
      next
        case (Inr m')
        then show ?thesis
          using check_rep_parsed [OF rem reset msg, of c w]
          by (cases "startswith m ''(336) The following features cannot be null''";
              cases "limit_remaining = 0 \<and> limit_reset > 0";
              cases "startswith m ''(88) Rate limit exceeded'' \<and> limit_remaining > 0";
              cases "startswith m ''(326) Authorization: Denied by access control''";
              cases "startswith m ''(32) Could not authenticate you''";
              cases "m = ''OK'' \<and> status_code rep = 403") (simp_all, blast+)
      qed
    qed
  qed
qed


lemma check_rep_passes:
  assumes "check_rep E rep c w = (Inr u, c', w')"
  shows "c' = c \<and> w' = w"
  using check_rep_cases [of E rep c w] assms
  by (auto dest: close_and_raise_exn close_and_raise_exn [OF sym])

lemma check_rep_exn:
  assumes "check_rep E rep c w = (Inl e, c', w')"
  shows "e = HandledError \<or> e = ValueError \<or> e = TypeError \<or> e = KeyError
         \<or> e = AttributeError \<or> e = AbortReqError \<or> e = SystemExit 1"
  using check_rep_cases [of E rep c w] assms
  by (auto dest: close_and_raise_exn close_and_raise_exn [OF sym])

subsection \<open>The final steps of the classifier\<close>

text \<open>
  C3, as stated, fails. A response with status 500 whose body reports the error
  \<^verbatim>\<open>(130) Over capacity\<close>, which no earlier rule matches, is passed: the test
  \<^verbatim>\<open>if err_msg != "OK": return\<close> does not look at the status, and nothing is released.
\<close>

theorem unknown_error_status_counterexample:
  "status_code rep_500_error = 500 \<and>
   build_err_msg (sp_externals remdups) (rep_json rep_500_error) = Inr ''(130) Over capacity'' \<and>
   check_rep (sp_externals remdups) rep_500_error c_direct w_two = (Inr (), c_direct, w_two)"
  by (simp add: eval_client eval_py eval_sp rep_500_error_def)

text \<open>
  C3, amended. Take a response that reaches the final steps: its headers and message are
  read without an exception, no earlier rule matches, and \<open>m'\<close> is the message as the
  \<^verbatim>\<open>(131)\<close> rule leaves it. Let the HTTP library raise for every status outside 2xx/3xx
  and the clock not be before the epoch. If \<open>m'\<close> is not \<^verbatim>\<open>OK\<close> the response is passed,
  whatever its status. If \<open>m'\<close> is \<^verbatim>\<open>OK\<close> and the status is not 2xx/3xx, the classifier
  closes the context, reports lock-until the current time plus 900 seconds with the
  success count, and raises \<open>HandledError\<close>. If \<open>m'\<close> is \<^verbatim>\<open>OK\<close> and the library does not
  raise for the status, the response is passed.
\<close>

theorem final_steps:
  assumes hdr: "header_int rep ''x-rate-limit-remaining'' = Inr limit_remaining"
      "header_int rep ''x-rate-limit-reset'' = Inr limit_reset"
    and msg: "build_err_msg E (rep_json rep) = Inr m"
    and earlier:
      "\<not> startswith m ''(336) The following features cannot be null''"
      "\<not> (limit_remaining = 0 \<and> limit_reset > 0)"
      "\<not> (startswith m ''(88) Rate limit exceeded'' \<and> limit_remaining > 0)"
      "\<not> startswith m ''(326) Authorization: Denied by access control''"
      "\<not> startswith m ''(32) Could not authenticate you''"
      "\<not> (m = ''OK'' \<and> status_code rep = 403)"
      "dependency_check rep (rep_json rep) m = Inr m'"
      "\<not> (status_code rep = 200 \<and> contains m' ''_Missing: No status found with that ID'')"
      "\<not> (status_code rep = 200 \<and> contains m' ''Authorization'')"
    and lib: "raises_outside_2xx_3xx E"
    and clock: "0 \<le> utc_ts E (ext w)"
    and "ctx c = Some x"
  shows
    "(m' \<noteq> ''OK'' \<longrightarrow> check_rep E rep c w = (Inr (), c, w)) \<and>
     (m' = ''OK'' \<and> \<not> (200 \<le> status_code rep \<and> status_code rep < 400) \<longrightarrow>
        check_rep E rep c w =
          (Inl HandledError, c\<lparr>ctx := None, self_req_count := Some 0\<rparr>,
           lock_until E (username (acc x)) (queue c) (utc_ts E (ext w) + 900) (req_count x)
             (aclose (clt x) w))) \<and>
     (m' = ''OK'' \<and> \<not> raise_for_status E (status_code rep) \<longrightarrow>
        check_rep E rep c w = (Inr (), c, w))"
proof -
  have run: "check_rep E rep c w =
      (if m' \<noteq> ''OK'' then (Inr (), c, w)
       else if raise_for_status E (status_code rep)
         then close_and_raise E (utc_ts E (ext w) + 60 * 15) False None c w
       else (Inr (), c, w))"
    using check_rep_parsed [OF hdr msg, of c w] earlier by simp
  have raises: "raise_for_status E (status_code rep)"
    if "\<not> (200 \<le> status_code rep \<and> status_code rep < 400)"
    using lib that unfolding raises_outside_2xx_3xx_def by blast
  show ?thesis
    using run raises clock close_and_raise_open [OF \<open>ctx c = Some x\<close>, of E "utc_ts E (ext w) + 60 * 15" False None w]
    by simp
qed

lemma httpx_raises_outside: "raises_outside_2xx_3xx (sp_externals ord)"
  by (auto simp: raises_outside_2xx_3xx_def sp_externals_def httpx_raise_for_status_def)

theorem final_steps_witness:
  "header_int rep_500_plain ''x-rate-limit-remaining'' = Inr (- 1) \<and>
   header_int rep_500_plain ''x-rate-limit-reset'' = Inr (- 1) \<and>
   build_err_msg (sp_externals remdups) (rep_json rep_500_plain) = Inr ''OK'' \<and>
   dependency_check rep_500_plain (rep_json rep_500_plain) ''OK'' = Inr ''OK'' \<and>
   raises_outside_2xx_3xx (sp_externals remdups) \<and>
   ctx c_direct = Some ctx_A \<and>
   utc_ts (sp_externals remdups) (ext w_two) = 1000 \<and>
   fst (check_rep (sp_externals remdups) rep_500_plain c_direct w_two) = Inl HandledError \<and>
   trace (snd (snd (check_rep (sp_externals remdups) rep_500_plain c_direct w_two)))
     = [Aclose 0, LockUntil ''A'' ''search'' 1900 4]"
  using final_steps [of rep_500_plain "- 1" "- 1" "sp_externals remdups" "''OK''" "''OK''"
      w_two c_direct ctx_A]
  by (simp add: httpx_raises_outside)
     (simp add: eval_client eval_py eval_sp rep_500_plain_def
      c_direct_def ctx_A_def w_two_def x_two_def)

subsection \<open>The abort rule\<close>



text \<open>
  A body whose \<^verbatim>\<open>data\<close> is null or a number is outside the cases of the theorem: the test
  \<^verbatim>\<open>"user" in res["data"]\<close> raises \<open>TypeError\<close>, the classifier does not raise
  \<open>AbortReqError\<close>, and the loop counts an unknown error and sends the request again.
\<close>

lemma abort_rule_data_null:
  "check_rep (sp_externals remdups) rep_131_null c_direct w_two = (Inl TypeError, c_direct, w_two) \<and>
   outcome_of (req (sp_externals remdups) [Reply rep_131_null, Reply rep_ok] c_direct w_two)
     = Some (Return (Some rep_ok)) \<and>
   trace_of (req (sp_externals remdups) [Reply rep_131_null, Reply rep_ok] c_direct w_two)
     = Some [Request 0, Request 0]"
  by (simp add: eval_result eval_client eval_py eval_sp c_direct_def ctx_A_def w_two_def x_two_def
      rep_131_null_def rep_ok_def)

subsection \<open>The handlers and the loop\<close>

lemma on_exception_shape:
  assumes "on_exception E e (u, k) c w = (s, (u', k'), c', w')"
  shows "redis_conn c' = redis_conn c \<and>
     (case e of
        TransportError f \<Rightarrow>
          (if connect_failure f
           then k' = k + 1 \<and> c' = c \<and> w' = w \<and> u' = u
                \<and> (s = Raise e \<and> 3 \<le> k + 1 \<or> s = Continue \<and> k + 1 < 3)
           else k' = k \<and> s = Continue)
      | SystemExit n \<Rightarrow> s = Exit n \<and> k' = k \<and> c' = c \<and> w' = w \<and> u' = u
      | AbortReqError \<Rightarrow> s = Return None \<and> k' = k \<and> c' = c \<and> w' = w \<and> u' = u
      | HandledError \<Rightarrow> s = Continue \<and> k' = k \<and> c' = c \<and> w' = w \<and> u' = u
      | _ \<Rightarrow> s = Continue \<and> k' = k)"
proof (cases e)
  case (TransportError f)
  then show ?thesis
    using assms
    by (cases f) (auto simp: connect_failure_def split: if_splits prod.splits
        dest: close_ctx_config)
qed (use assms in \<open>auto split: if_splits prod.splits dest: close_ctx_config\<close>)

lemma py_int_exn: "py_int v = Inl e \<Longrightarrow> e = ValueError"
  by (cases v) (auto dest: int_of_str_exn)

lemma increment_account_usage_exn:
  "increment_account_usage E c a w = (Inl e, w') \<Longrightarrow> e = ValueError \<and> redis_conn c"
  by (cases "redis_conn c")
     (auto simp: increment_account_usage_def Let_def split: option.splits sum.splits
        dest: py_int_exn)

lemma increment_total_count_exn:
  "increment_total_count E c w = (Inl e, w') \<Longrightarrow> e = ValueError \<and> redis_conn c"
  by (cases "redis_conn c")
     (auto simp: increment_total_count_def split: option.splits sum.splits
        dest: py_int_exn)

lemma close_and_raise_config:
  "close_and_raise E t i m c w = (res, c', w') \<Longrightarrow> redis_conn c' = redis_conn c"
  by (auto simp: close_and_raise_def split: prod.splits dest: close_ctx_config)

lemma check_rep_config:
  assumes "check_rep E rep c w = (res, c', w')"
  shows "redis_conn c' = redis_conn c"
  using check_rep_cases [of E rep c w] assms
  by (auto dest: close_and_raise_config close_and_raise_config [OF sym])

text \<open>One turn of the loop body: what it does to the counter of connect failures, and
  what it can end with.\<close>

lemma attempt_shape:
  assumes "attempt E n x (u, k) c w = (s, (u', k'), c', w')"
  shows "redis_conn c' = redis_conn c \<and>
     (case n of
        Fails f \<Rightarrow>
          (if connect_failure f
           then k' = k + 1 \<and> u' = u \<and> c' = c \<and> w' = sent x w
                \<and> (s = Raise (TransportError f) \<and> 3 \<le> k + 1 \<or> s = Continue \<and> k + 1 < 3)
           else k' = k \<and> s = Continue)
      | Reply rep \<Rightarrow>
          (s = Return (Some rep) \<and> u' = 0 \<and> k' = 0) \<or>
          (k' = k \<and> (s = Continue \<or> s = Return None \<or> s = Exit 1)))"
proof (cases n)
  case (Fails f)
  then have "on_exception E (TransportError f) (u, k) c (sent x w) = (s, (u', k'), c', w')"
    using assms by (simp add: attempt_def Let_def)
  from on_exception_shape [OF this] Fails show ?thesis by auto
next
  case (Reply rep)
  obtain res c1 w1 where chk: "check_rep E rep c (sent x w) = (res, c1, w1)"
    by (cases "check_rep E rep c (sent x w)") auto
  have conn1: "redis_conn c1 = redis_conn c" by (rule check_rep_config [OF chk])
  show ?thesis
  proof (cases res)
    case (Inl e)
    then have oe: "on_exception E e (u, k) c1 w1 = (s, (u', k'), c', w')"
      using assms Reply chk by (simp add: attempt_def Let_def)
    from chk Inl have "e = HandledError \<or> e = ValueError \<or> e = TypeError \<or> e = KeyError
         \<or> e = AttributeError \<or> e = AbortReqError \<or> e = SystemExit 1"
      using check_rep_exn by blast
    with on_exception_shape [OF oe] conn1 Reply show ?thesis by auto
  next
    case (Inr v)
    define c2 where "c2 = c1\<lparr>ctx := Some (x\<lparr>req_count := req_count x + 1\<rparr>)\<rparr>"
    have conn2: "redis_conn c2 = redis_conn c" using conn1 by (simp add: c2_def)
    obtain ra w2 where ia: "increment_account_usage E c2 (username (acc x)) w1 = (ra, w2)"
      by (cases "increment_account_usage E c2 (username (acc x)) w1") auto
    show ?thesis
    proof (cases ra)
      case (Inl e)
      then have oe: "on_exception E e (u, k) c2 w2 = (s, (u', k'), c', w')"
        using assms Reply chk Inr ia by (simp add: attempt_def Let_def c2_def)
      from ia Inl have "e = ValueError" using increment_account_usage_exn by blast
      with on_exception_shape [OF oe] conn2 Reply show ?thesis by auto
    next
      case ra: (Inr a)
      obtain rt w3 where it: "increment_total_count E c2 w2 = (rt, w3)"
        by (cases "increment_total_count E c2 w2") auto
      show ?thesis
      proof (cases rt)
        case (Inl e)
        then have oe: "on_exception E e (u, k) c2 w3 = (s, (u', k'), c', w')"
          using assms Reply chk Inr ia ra it by (simp add: attempt_def Let_def c2_def)
        from it Inl have "e = ValueError" using increment_total_count_exn by blast
        with on_exception_shape [OF oe] conn2 Reply show ?thesis by auto
      next
        case (Inr t)
        then have "(s, (u', k'), c', w') = (Return (Some rep), (0, 0), c2, w3)"
          using assms Reply chk \<open>res = Inr v\<close> ia ra it by (simp add: attempt_def Let_def c2_def)
        with conn2 Reply show ?thesis by simp
      qed
    qed
  qed
qed

lemma switch_due_exn:
  "switch_due t ch = Inl e \<Longrightarrow> t \<noteq> None \<and> (e = ValueError \<or> e = ZeroDivisionError)"
  by (auto simp: switch_due_def split: option.splits if_splits sum.splits dest: py_int_exn)

lemma least_used_scan_exn: "least_used_scan get us m l = Inl e \<Longrightarrow> e = ValueError"
  by (induction us arbitrary: m l) (auto split: option.splits sum.splits if_splits dest: py_int_exn)

lemma change_ctx_shape:
  assumes "change_ctx E c w = (res, c', w')"
  shows "redis_conn c' = redis_conn c \<and> (\<forall>e. res = Inl e \<longrightarrow> e = ValueError \<and> redis_conn c)"
  using assms
  by (cases "redis_conn c")
     (auto simp: change_ctx_def get_least_used_account_def make_client_def Let_def
        split: sum.splits option.splits prod.splits dest: least_used_scan_exn)

lemma org_change_shape:
  assumes "org_change E c w = (res, c', w')"
  shows "redis_conn c' = redis_conn c \<and> (\<forall>e. res \<noteq> Inl e)"
  using assms
  by (auto simp: org_change_def make_client_def Let_def split: option.splits prod.splits)

lemma get_ctx_shape:
  assumes "get_ctx E c w = (res, c', w')"
  shows "redis_conn c' = redis_conn c \<and>
         (\<forall>e. res = Inl e \<longrightarrow> redis_conn c \<and> (e = ValueError \<or> e = ZeroDivisionError))"
proof (cases "switch_due (get_total_count E c w) (change c)")
  case (Inl e)
  from switch_due_exn [OF Inl] have "redis_conn c" "e = ValueError \<or> e = ZeroDivisionError"
    by (auto simp: get_total_count_def split: if_splits)
  moreover have "get_ctx E c w = (Inl e, c, w)"
    using Inl by (simp add: get_ctx_def change_acc_usage_def)
  ultimately show ?thesis
    using assms by auto
next
  case (Inr b)
  have "change_ctx E c w = (res, c', w') \<or> org_change E c w = (res, c', w')
        \<or> (res = Inr (ctx c) \<and> c' = c)"
    using assms Inr
    by (cases b; cases "ctx c"; cases "ave c \<and> redis_conn c")
       (simp_all add: get_ctx_def change_acc_usage_def)
  then show ?thesis
    using change_ctx_shape [of E c w res c' w'] org_change_shape [of E c w res c' w'] by auto
qed

text \<open>An exception that leaves the loop: a connect failure once the counter has reached
  three, or an exception of session selection.\<close>

lemma req_loop_raise:
  assumes "req_loop E script (u, k) c w = Some (Raise e, r', c', w')"
  shows "(\<exists>f. connect_failure f \<and> e = TransportError f \<and> 3 \<le> k + connect_failures script)
         \<or> (redis_conn c \<and> (e = ValueError \<or> e = ZeroDivisionError))"
  using assms
proof (induction script arbitrary: u k c w)
  case Nil
  obtain res c1 w1 where g: "get_ctx E c w = (res, c1, w1)"
    by (cases "get_ctx E c w") auto
  with Nil have "res = Inl e"
    by (auto split: sum.splits option.splits)
  with get_ctx_shape [OF g] show ?case by simp
next
  case (Cons n ns)
  obtain res c1 w1 where g: "get_ctx E c w = (res, c1, w1)"
    by (cases "get_ctx E c w") auto
  note gs = get_ctx_shape [OF g]
  show ?case
  proof (cases res)
    case (Inl e0)
    with Cons.prems g have "e = e0" by simp
    with gs Inl show ?thesis by simp
  next
    case (Inr xo)
    show ?thesis
    proof (cases xo)
      case None
      with Cons.prems g Inr show ?thesis by simp
    next
      case (Some x)
      obtain s u2 k2 c2 w2 where a: "attempt E n x (u, k) c1 w1 = (s, (u2, k2), c2, w2)"
        by (cases "attempt E n x (u, k) c1 w1") auto
      note as = attempt_shape [OF a]
      have conn: "redis_conn c2 = redis_conn c" using as gs by simp
      have kb: "k2 \<le> k + connect_failures [n]"
        using as by (cases n) (auto split: if_splits)
      show ?thesis
      proof (cases s)
        case Continue
        then have "req_loop E ns (u2, k2) c2 w2 = Some (Raise e, r', c', w')"
          using Cons.prems g Inr Some a by simp
        from Cons.IH [OF this] conn kb show ?thesis
          by (cases n) (auto split: if_splits)
      next
        case (Return v)
        then show ?thesis using Cons.prems g Inr Some a by simp
      next
        case (Exit m)
        then show ?thesis using Cons.prems g Inr Some a by simp
      next
        case (Raise e0)
        then have "e = e0" using Cons.prems g Inr Some a by simp
        with as Raise show ?thesis
          by (cases n) (auto split: if_splits)
      qed
    qed
  qed
qed


subsection \<open>Connect failures\<close>



text \<open>
  Session selection runs outside the \<^verbatim>\<open>try\<close>: with a counter store and a threshold of
  zero, \<^verbatim>\<open>int(total_count) % int(self.change)\<close> raises \<open>ZeroDivisionError\<close>, which leaves
  \<^verbatim>\<open>req\<close> before any request is sent.
\<close>

lemma selection_zero_threshold:
  "outcome_of (req (sp_externals remdups) [Reply rep_ok] (c_store\<lparr>change := 0\<rparr>) (w_count ''15''))
     = Some (Raise ZeroDivisionError)"
  by (simp add: eval_result eval_client eval_py eval_sp c_store_def c_direct_def ctx_A_def
      w_count_def w_two_def x_two_def)

subsection \<open>The retry counters\<close>

text \<open>
  C4, as stated, fails where it says a rotation resets the counters. Two connect
  failures bring the connect counter to two; the rate-limited response that follows
  makes the client release \<^verbatim>\<open>A\<close> and take \<^verbatim>\<open>B\<close>; the next connect failure, the first
  on the new session, brings the counter to three and leaves \<^verbatim>\<open>req\<close> as an exception.
  Had the rotation reset the counter, this failure would have been the first of three.
\<close>

theorem rotation_keeps_counters_counterexample:
  "outcome_of (req (sp_externals remdups)
       [Fails ConnectError, Fails ConnectError, Reply rep_rate_limited, Fails ConnectError]
       c_direct w_two)
     = Some (Raise (TransportError ConnectError)) \<and>
   retry_of (req (sp_externals remdups)
       [Fails ConnectError, Fails ConnectError, Reply rep_rate_limited, Fails ConnectError]
       c_direct w_two)
     = Some (0, 3) \<and>
   trace_of (req (sp_externals remdups)
       [Fails ConnectError, Fails ConnectError, Reply rep_rate_limited, Fails ConnectError]
       c_direct w_two)
     = Some [Request 0, Request 0, Request 0, Aclose 0, LockUntil ''A'' ''search'' 1900 4,
             GetForQueue ''search'', MakeClient 1 ''B'', Request 1]"
  by (simp add: eval_result eval_client eval_py eval_sp c_direct_def ctx_A_def w_two_def
      x_two_def rep_rate_limited_def)

text \<open>
  C4, amended. Within one call of \<^verbatim>\<open>req\<close> both counters are set to zero when an attempt
  succeeds, as the response is returned. An attempt whose response the classifier
  answers with \<open>HandledError\<close> (rate-limited, banned, unhandled status) makes the loop
  go on with both counters as they were. The counters belong to the call: each call
  starts from \<open>(0, 0)\<close>, the next call takes from the previous one the client and the
  world and not its counters, and so a call that ends in a connect failure has seen at
  least three of them itself.
\<close>

theorem retry_counters:
  "(\<forall>n x r c w rep r' c' w'.
      attempt E n x r c w = (Return (Some rep), r', c', w') \<longrightarrow> r' = (0, 0)) \<and>
   (\<forall>rep x r c w c' w'.
      check_rep E rep c (sent x w) = (Inl HandledError, c', w')
    \<longrightarrow> attempt E (Reply rep) x r c w = (Continue, r, c', w')) \<and>
   (\<forall>script c w. req E script c w = req_loop E script (0, 0) c w) \<and>
   (\<forall>script s r c w. then_req E script (Some (s, r, c, w)) = req E script c w) \<and>
   (\<forall>script c w f r' c' w'.
      connect_failure f \<and> req E script c w = Some (Raise (TransportError f), r', c', w')
    \<longrightarrow> 3 \<le> connect_failures script)"
proof -
  have a: "r' = (0, 0)"
    if "attempt E n x r c w = (Return (Some rep), r', c', w')" for n x r c w rep r' c' w'
  proof -
    obtain u k where r: "r = (u, k)" by (cases r) auto
    obtain u' k' where r': "r' = (u', k')" by (cases r') auto
    from attempt_shape [OF that [unfolded r r']] show ?thesis
      using r' by (cases n) (auto split: if_splits)
  qed
  have b: "attempt E (Reply rep) x r c w = (Continue, r, c', w')"
    if "check_rep E rep c (sent x w) = (Inl HandledError, c', w')" for rep x r c w c' w'
    using that by (cases r) (simp add: attempt_def Let_def)
  have d: "3 \<le> connect_failures script"
    if "connect_failure f" "req E script c w = Some (Raise (TransportError f), r', c', w')"
    for script c w f r' c' w'
    using req_loop_raise [of E script 0 0 c w "TransportError f" r' c' w'] that
    by (auto simp: req_def)
  have c1: "\<forall>n x r c w rep r' c' w'.
      attempt E n x r c w = (Return (Some rep), r', c', w') \<longrightarrow> r' = (0, 0)"
    by (intro allI impI) (rule a)
  have c2: "\<forall>rep x r c w c' w'.
      check_rep E rep c (sent x w) = (Inl HandledError, c', w')
    \<longrightarrow> attempt E (Reply rep) x r c w = (Continue, r, c', w')"
    by (intro allI impI) (rule b)
  have c3: "\<forall>script c w. req E script c w = req_loop E script (0, 0) c w"
    by (simp add: req_def)
  have c3': "\<forall>script s r c w. then_req E script (Some (s, r, c, w)) = req E script c w"
    by (simp add: then_req_def)
  have c4: "\<forall>script c w f r' c' w'.
      connect_failure f \<and> req E script c w = Some (Raise (TransportError f), r', c', w')
    \<longrightarrow> 3 \<le> connect_failures script"
    by (intro allI impI) (elim conjE, rule d, assumption+)
  show ?thesis by (rule conjI [OF c1 conjI [OF c2 conjI [OF c3 conjI [OF c3' c4]]]])
qed

theorem retry_counters_witness:
  "fst (check_rep (sp_externals remdups) rep_rate_limited c_direct (sent ctx_A w_two))
     = Inl HandledError \<and>
   fst (attempt (sp_externals remdups) (Reply rep_rate_limited) ctx_A (1, 2) c_direct w_two)
     = Continue \<and>
   fst (snd (attempt (sp_externals remdups) (Reply rep_rate_limited) ctx_A (1, 2) c_direct w_two))
     = (1, 2) \<and>
   fst (attempt (sp_externals remdups) (Reply rep_ok) ctx_A (1, 2) c_direct w_two)
     = Return (Some rep_ok) \<and>
   fst (snd (attempt (sp_externals remdups) (Reply rep_ok) ctx_A (1, 2) c_direct w_two))
     = (0, 0) \<and>
   connect_failures [Fails ConnectError, Fails ConnectTimeout, Fails ConnectError] = 3"
  using retry_counters [of "sp_externals remdups"]
  by (simp add: connect_failure_def eval_client eval_py eval_sp c_direct_def
      ctx_A_def w_two_def x_two_def rep_ok_def rep_rate_limited_def)

subsection \<open>Direct rotation\<close>

text \<open>
  C8, as stated, fails for a client with no counter store. With a threshold of one
  request and a context open, three calls of \<^verbatim>\<open>req\<close> in a row send all three requests
  over the same transport and never ask the pool: \<^verbatim>\<open>_get_total_count\<close> returns \<^verbatim>\<open>None\<close>
  without a store, so the count is never a multiple of anything.
\<close>

theorem no_store_no_switch_counterexample:
  "\<not> redis_conn c_every \<and> change c_every = 1 \<and>
   outcome_of (then_req (sp_externals remdups) [Reply rep_ok]
      (then_req (sp_externals remdups) [Reply rep_ok]
         (req (sp_externals remdups) [Reply rep_ok] c_every w_two)))
     = Some (Return (Some rep_ok)) \<and>
   trace_of (then_req (sp_externals remdups) [Reply rep_ok]
      (then_req (sp_externals remdups) [Reply rep_ok]
         (req (sp_externals remdups) [Reply rep_ok] c_every w_two)))
     = Some [Request 0, Request 0, Request 0]"
  by (simp add: then_req_def eval_result eval_client eval_py eval_sp c_every_def c_direct_def
      ctx_A_def w_two_def x_two_def rep_ok_def)

text \<open>
  C8, amended. Under direct rotation (not both \<^verbatim>\<open>ave\<close> and a counter store) each selection
  does this. With no counter store it keeps the open context and asks the pool only when
  none is open; there is no switch by count. With a counter store whose global count is
  truthy and reads as the integer \<open>n\<close>, and a threshold other than zero, it asks the
  pool's queue-aware acquire operation for a session when \<open>n\<close> is a multiple of the
  threshold, and otherwise keeps the open context, asking the pool only when none is
  open; a missing or falsy count is as no switch. Asking the pool installs a new context
  with a new transport and a success count of zero for the account it returns, and
  installs nothing when it returns none.
\<close>

theorem direct_rotation:
  assumes "\<not> (ave c \<and> redis_conn c)"
  shows
    "(\<not> redis_conn c \<longrightarrow>
        get_ctx E c w =
          (case ctx c of Some x \<Rightarrow> (Inr (Some x), c, w) | None \<Rightarrow> org_change E c w)) \<and>
     (\<forall>v n. redis_conn c \<and> tracked E w ACCOUNT_TOTAL_COUNT = Some v \<and> py_truthy v
          \<and> py_int v = Inr n \<and> change c \<noteq> 0 \<longrightarrow>
        get_ctx E c w =
          (if n mod change c = 0 then org_change E c w
           else (case ctx c of Some x \<Rightarrow> (Inr (Some x), c, w) | None \<Rightarrow> org_change E c w))) \<and>
     (redis_conn c \<and> (tracked E w ACCOUNT_TOTAL_COUNT = None
          \<or> (\<exists>v. tracked E w ACCOUNT_TOTAL_COUNT = Some v \<and> \<not> py_truthy v)) \<longrightarrow>
        get_ctx E c w =
          (case ctx c of Some x \<Rightarrow> (Inr (Some x), c, w) | None \<Rightarrow> org_change E c w)) \<and>
     (\<forall>a x'. pool_get_for_queue_or_wait E (queue c) (ext w) = (Some a, x') \<longrightarrow>
        org_change E c w =
          (Inr (Some \<lparr>acc = a, clt = next_clt w, req_count = 0\<rparr>),
           c\<lparr>ctx := Some \<lparr>acc = a, clt = next_clt w, req_count = 0\<rparr>\<rparr>,
           w\<lparr>ext := x',
             trace := trace w @ [GetForQueue (queue c), MakeClient (next_clt w) (username a)],
             next_clt := next_clt w + 1,
             open_clts := open_clts w @ [next_clt w]\<rparr>)) \<and>
     (\<forall>x'. pool_get_for_queue_or_wait E (queue c) (ext w) = (None, x') \<longrightarrow>
        org_change E c w = (Inr None, c, w\<lparr>ext := x', trace := trace w @ [GetForQueue (queue c)]\<rparr>))"
proof -
  have direct: "get_ctx E c w =
      (case switch_due (get_total_count E c w) (change c) of
         Inl e \<Rightarrow> (Inl e, c, w)
       | Inr True \<Rightarrow> org_change E c w
       | Inr False \<Rightarrow>
           (case ctx c of Some x \<Rightarrow> (Inr (Some x), c, w) | None \<Rightarrow> org_change E c w))"
    using assms by (cases "ave c"; cases "redis_conn c") (simp_all add: get_ctx_def)
  have c1: "\<not> redis_conn c \<longrightarrow>
        get_ctx E c w =
          (case ctx c of Some x \<Rightarrow> (Inr (Some x), c, w) | None \<Rightarrow> org_change E c w)"
    by (simp add: direct get_total_count_def switch_due_def)
  have c2: "\<forall>v n. redis_conn c \<and> tracked E w ACCOUNT_TOTAL_COUNT = Some v \<and> py_truthy v
          \<and> py_int v = Inr n \<and> change c \<noteq> 0 \<longrightarrow>
        get_ctx E c w =
          (if n mod change c = 0 then org_change E c w
           else (case ctx c of Some x \<Rightarrow> (Inr (Some x), c, w) | None \<Rightarrow> org_change E c w))"
    by (simp add: direct get_total_count_def switch_due_def tracked_def)
  have c3: "redis_conn c \<and> (tracked E w ACCOUNT_TOTAL_COUNT = None
          \<or> (\<exists>v. tracked E w ACCOUNT_TOTAL_COUNT = Some v \<and> \<not> py_truthy v)) \<longrightarrow>
        get_ctx E c w =
          (case ctx c of Some x \<Rightarrow> (Inr (Some x), c, w) | None \<Rightarrow> org_change E c w)"
    by (auto simp: direct get_total_count_def switch_due_def tracked_def)
  have c4: "\<forall>a x'. pool_get_for_queue_or_wait E (queue c) (ext w) = (Some a, x') \<longrightarrow>
        org_change E c w =
          (Inr (Some \<lparr>acc = a, clt = next_clt w, req_count = 0\<rparr>),
           c\<lparr>ctx := Some \<lparr>acc = a, clt = next_clt w, req_count = 0\<rparr>\<rparr>,
           w\<lparr>ext := x',
             trace := trace w @ [GetForQueue (queue c), MakeClient (next_clt w) (username a)],
             next_clt := next_clt w + 1,
             open_clts := open_clts w @ [next_clt w]\<rparr>)"
    by (simp add: org_change_def get_for_queue_or_wait_def make_client_def Let_def)
  have c5: "\<forall>x'. pool_get_for_queue_or_wait E (queue c) (ext w) = (None, x') \<longrightarrow>
        org_change E c w = (Inr None, c, w\<lparr>ext := x', trace := trace w @ [GetForQueue (queue c)]\<rparr>)"
    by (simp add: org_change_def get_for_queue_or_wait_def)
  show ?thesis by (rule conjI [OF c1 conjI [OF c2 conjI [OF c3 conjI [OF c4 c5]]]])
qed

theorem direct_rotation_witness:
  "\<not> (ave c_store \<and> redis_conn c_store) \<and> redis_conn c_store \<and> change c_store = 15 \<and>
   tracked (sp_externals remdups) (w_count ''30'') ACCOUNT_TOTAL_COUNT = Some (RStr ''30'') \<and>
   py_truthy (RStr ''30'') \<and> py_int (RStr ''30'') = Inr 30 \<and>
   fst (get_ctx (sp_externals remdups) c_store (w_count ''30'')) = Inr (Some ctx_B) \<and>
   trace (snd (snd (get_ctx (sp_externals remdups) c_store (w_count ''30''))))
     = [GetForQueue ''search'', MakeClient 1 ''B''] \<and>
   get_ctx (sp_externals remdups) c_store (w_count ''31'')
     = (Inr (Some ctx_A), c_store, w_count ''31'')"
  using direct_rotation [of c_store "sp_externals remdups" "w_count ''30''"]
  by (simp add: tracked_def eval_client eval_py eval_sp c_store_def c_direct_def ctx_A_def ctx_B_def
      w_count_def w_two_def x_two_def)

subsection \<open>Rotating away from an open context\<close>

text \<open>Selection closes nothing and reports nothing.\<close>

lemma change_ctx_keeps:
  assumes "change_ctx E c w = (res, c', w')"
  shows "(\<exists>evs. trace w' = trace w @ evs \<and> list_all (\<lambda>e. \<not> is_release e) evs)
         \<and> set (open_clts w) \<subseteq> set (open_clts w')"
  using assms
  by (auto simp: change_ctx_def make_client_def Let_def
      split: sum.splits option.splits prod.splits)

lemma org_change_keeps:
  assumes "org_change E c w = (res, c', w')"
  shows "(\<exists>evs. trace w' = trace w @ evs \<and> list_all (\<lambda>e. \<not> is_release e) evs)
         \<and> set (open_clts w) \<subseteq> set (open_clts w')"
  using assms
  by (auto simp: org_change_def get_for_queue_or_wait_def make_client_def Let_def
      split: sum.splits option.splits prod.splits)

lemma get_ctx_keeps:
  assumes "get_ctx E c w = (res, c', w')"
  shows "(\<exists>evs. trace w' = trace w @ evs \<and> list_all (\<lambda>e. \<not> is_release e) evs)
         \<and> set (open_clts w) \<subseteq> set (open_clts w')"
proof -
  have "change_ctx E c w = (res, c', w') \<or> org_change E c w = (res, c', w') \<or> w' = w"
    using assms
    by (auto simp: get_ctx_def change_acc_usage_def
        split: if_splits sum.splits bool.splits option.splits)
  then show ?thesis
    using change_ctx_keeps [of E c w res c' w'] org_change_keeps [of E c w res c' w']
    by auto
qed

text \<open>
  C2 fails on the code. The client holds the context of \<^verbatim>\<open>A\<close> with transport 0 and the
  global count is 15, a multiple of the threshold. Selection installs a context for
  \<^verbatim>\<open>B\<close> with transport 1, under direct rotation (through \<^verbatim>\<open>_org_change\<close>) and under
  usage-balanced rotation (through \<^verbatim>\<open>_change\<close>) alike, and that is all it does: the
  trace holds no close of transport 0 and no report for \<^verbatim>\<open>A\<close>, and two transports are
  open afterwards.
\<close>

theorem rotation_leaves_context_open:
  "ctx c_store = Some ctx_A \<and> ctx c_balanced_A = Some ctx_A \<and> open_clts (w_count ''15'') = [0] \<and>
   fst (get_ctx (sp_externals remdups) c_store (w_count ''15'')) = Inr (Some ctx_B) \<and>
   trace (snd (snd (get_ctx (sp_externals remdups) c_store (w_count ''15''))))
     = [GetForQueue ''search'', MakeClient 1 ''B''] \<and>
   open_clts (snd (snd (get_ctx (sp_externals remdups) c_store (w_count ''15'')))) = [0, 1] \<and>
   fst (get_ctx (sp_externals remdups) c_balanced_A (w_count ''15'')) = Inr (Some ctx_B) \<and>
   trace (snd (snd (get_ctx (sp_externals remdups) c_balanced_A (w_count ''15''))))
     = [MakeClient 1 ''B''] \<and>
   open_clts (snd (snd (get_ctx (sp_externals remdups) c_balanced_A (w_count ''15'')))) = [0, 1]"
  by (simp add: eval_client eval_py eval_sp c_store_def c_direct_def c_balanced_A_def
      c_balanced_def ctx_A_def ctx_B_def w_count_def w_two_def x_two_def)

end
